theory Spec2Isabelle
  imports Complex_Main
begin

section \<open>Structural analysis of an agent's connectivity matrix\<close>

text \<open>
  A shallow embedding of \<^verbatim>\<open>structuralAgentAnalysis.py\<close>. The connectivity matrix is a
  two-dimensional numpy array of dtype int64, as the 0/1 connectivity matrices of the agents
  are; it is modelled as the list of its rows. An entry is an integer, and the arithmetic
  numpy does on entries (sums and products) wraps around at 64 bits. Arrays of floats are
  not modelled. A numpy array is rectangular, and an array with no rows is taken to have
  no columns. Node indices are natural numbers. Every exception the source can raise is a
  value of \<open>py_error\<close>, returned on the left of a sum.
\<close>

subsection \<open>Exceptions, floats, data frames, agents\<close>

datatype py_error =
  IndexError | ValueError | ZeroDivisionError | NameError | NetworkXError | OverflowError

text \<open>
  Floats are idealised: a finite float is an exact rational, and the three special values
  of IEEE arithmetic are kept apart.
\<close>

datatype pyfloat = Fin rat | NaN | PosInf | NegInf

datatype cell = IntV int | FloatV pyfloat

type_synonym matrix = "int list list"

record dataframe =
  df_columns :: "string list"
  df_index :: "int list"
  df_rows :: "cell list list"

record agent =
  cm :: matrix
  sensor_ixs :: "nat list"
  hidden_ixs :: "nat list"
  motor_ixs :: "nat list"
  n_nodes :: nat

subsection \<open>The numpy operations the source uses\<close>

definition nrows :: "matrix \<Rightarrow> nat" where
  "nrows m = length m"

definition ncols :: "matrix \<Rightarrow> nat" where
  "ncols m = (case m of [] \<Rightarrow> 0 | r # _ \<Rightarrow> length r)"

text \<open>\<^verbatim>\<open>cm[ixs,:]\<close>: the rows named by a list of indices; an index past the end raises.\<close>

definition getrows :: "matrix \<Rightarrow> nat list \<Rightarrow> py_error + matrix" where
  "getrows m ixs =
     (if \<forall>i \<in> set ixs. i < nrows m then Inr (map (\<lambda>i. m ! i) ixs) else Inl IndexError)"

text \<open>\<^verbatim>\<open>cm[:,ixs]\<close>: the columns named by a list of indices.\<close>

definition getcols :: "matrix \<Rightarrow> nat list \<Rightarrow> py_error + matrix" where
  "getcols m ixs =
     (if \<forall>j \<in> set ixs. j < ncols m then Inr (map (\<lambda>r. map (\<lambda>j. r ! j) ixs) m)
      else Inl IndexError)"

text \<open>\<^verbatim>\<open>cm[np.ix_(a, b)]\<close>: the submatrix with rows \<open>a\<close> and columns \<open>b\<close>.\<close>

definition np_ix :: "matrix \<Rightarrow> nat list \<Rightarrow> nat list \<Rightarrow> py_error + matrix" where
  "np_ix m a b =
     (if (\<forall>i \<in> set a. i < nrows m) \<and> (\<forall>j \<in> set b. j < ncols m)
      then Inr (map (\<lambda>i. map (\<lambda>j. m ! i ! j) b) a)
      else Inl IndexError)"

text \<open>
  A numpy array made from a Python list (\<^verbatim>\<open>np.array(xs)\<close>, \<^verbatim>\<open>np.sort(xs)\<close>), used as an index
  array. The array made from an empty list has dtype float64, and numpy refuses a float
  array as an index.
\<close>

definition as_index :: "nat list \<Rightarrow> py_error + nat list" where
  "as_index xs = (if xs = [] then Inl IndexError else Inr xs)"

text \<open>
  The int64 value of an integer: numpy's sums and products of int64 numbers wrap around
  silently, into \<open>-2^63 \<le> x < 2^63\<close>.
\<close>

definition wrap64 :: "int \<Rightarrow> int" where
  "wrap64 x = (x + 2 ^ 63) mod 2 ^ 64 - 2 ^ 63"

definition in_int64 :: "int \<Rightarrow> bool" where
  "in_int64 x = (- (2 ^ 63) \<le> x \<and> x < 2 ^ 63)"

text \<open>\<^verbatim>\<open>np.sum(m, 0)\<close> (one sum per column) and \<^verbatim>\<open>np.sum(m, 1)\<close> (one sum per row).\<close>

definition sum_axis0 :: "matrix \<Rightarrow> int list" where
  "sum_axis0 m = map (\<lambda>j. wrap64 (sum_list (map (\<lambda>r. r ! j) m))) [0..<ncols m]"

definition sum_axis1 :: "matrix \<Rightarrow> int list" where
  "sum_axis1 m = map (\<lambda>r. wrap64 (sum_list r)) m"

text \<open>Elementwise product of two vectors, with numpy's broadcasting of a length-1 vector.\<close>

definition np_mult :: "int list \<Rightarrow> int list \<Rightarrow> py_error + int list" where
  "np_mult xs ys =
     (if length xs = length ys then Inr (map (\<lambda>(x, y). wrap64 (x * y)) (zip xs ys))
      else if length xs = 1 then Inr (map (\<lambda>y. wrap64 (hd xs * y)) ys)
      else if length ys = 1 then Inr (map (\<lambda>x. wrap64 (x * hd ys)) xs)
      else Inl ValueError)"

definition gt0 :: "int list \<Rightarrow> bool list" where
  "gt0 v = map (\<lambda>x. 0 < x) v"

text \<open>\<^verbatim>\<open>np.sum\<close> of a boolean array counts its true entries.\<close>

definition np_count :: "bool list \<Rightarrow> nat" where
  "np_count bs = length (filter (\<lambda>b. b) bs)"

text \<open>\<^verbatim>\<open>np.where(bs)[0]\<close>: the positions of the true entries, ascending.\<close>

definition np_where :: "bool list \<Rightarrow> nat list" where
  "np_where bs = filter (\<lambda>k. bs ! k) [0..<length bs]"

text \<open>
  \<^verbatim>\<open>cm[i,j] = v\<close>: the index is checked first, then the value, which must fit the array's
  dtype.
\<close>

definition setitem :: "matrix \<Rightarrow> nat \<Rightarrow> nat \<Rightarrow> int \<Rightarrow> py_error + matrix" where
  "setitem m i j v =
     (if \<not> (i < nrows m \<and> j < ncols m) then Inl IndexError
      else if \<not> in_int64 v then Inl OverflowError
      else Inr (m[i := (m ! i)[j := v]]))"

text \<open>\<^verbatim>\<open>for i in range(len(cm)): cm[i,i] = 0\<close>, on a matrix value.\<close>

fun kill_loop :: "nat list \<Rightarrow> matrix \<Rightarrow> py_error + matrix" where
  "kill_loop [] m = Inr m"
| "kill_loop (i # is) m =
     (case setitem m i i 0 of Inl e \<Rightarrow> Inl e | Inr m' \<Rightarrow> kill_loop is m')"

definition kill_self_loops :: "matrix \<Rightarrow> py_error + matrix" where
  "kill_self_loops m = kill_loop [0..<length m] m"

subsection \<open>Node classification\<close>

definition number_of_connected_sensors :: "matrix \<Rightarrow> nat list \<Rightarrow> py_error + nat" where
  "number_of_connected_sensors m sensors =
     (case getrows m sensors of
        Inl e \<Rightarrow> Inl e
      | Inr sub \<Rightarrow> Inr (np_count (gt0 (sum_axis1 sub))))"

definition number_of_connected_motors :: "matrix \<Rightarrow> nat list \<Rightarrow> py_error + nat" where
  "number_of_connected_motors m motors =
     (case getcols m motors of
        Inl e \<Rightarrow> Inl e
      | Inr sub \<Rightarrow> Inr (np_count (gt0 (sum_axis0 sub))))"

text \<open>
  The copy of the argument with its diagonal cleared unless self-loops are allowed:
  the first four lines of both \<^verbatim>\<open>number_of_densely_connected_nodes\<close> and
  \<^verbatim>\<open>densely_connected_nodes\<close>.
\<close>

definition copy_without_loops :: "matrix \<Rightarrow> bool \<Rightarrow> py_error + matrix" where
  "copy_without_loops cm_agent allow_self_loops =
     (if \<not> allow_self_loops then kill_self_loops cm_agent else Inr cm_agent)"

definition number_of_densely_connected_nodes :: "matrix \<Rightarrow> bool \<Rightarrow> py_error + nat" where
  "number_of_densely_connected_nodes cm_agent allow_self_loops =
     (case copy_without_loops cm_agent allow_self_loops of
        Inl e \<Rightarrow> Inl e
      | Inr m \<Rightarrow>
          (case np_mult (sum_axis0 m) (sum_axis1 m) of
             Inl e \<Rightarrow> Inl e
           | Inr p \<Rightarrow> Inr (np_count (gt0 p))))"

definition densely_connected_nodes :: "matrix \<Rightarrow> bool \<Rightarrow> py_error + nat list" where
  "densely_connected_nodes cm_agent allow_self_loops =
     (case copy_without_loops cm_agent allow_self_loops of
        Inl e \<Rightarrow> Inl e
      | Inr m \<Rightarrow>
          (case np_mult (sum_axis0 m) (sum_axis1 m) of
             Inl e \<Rightarrow> Inl e
           | Inr p \<Rightarrow> Inr (np_where (gt0 p))))"

text \<open>\<^verbatim>\<open>S[ind]\<close>: the entries of an index array at the given positions.\<close>

definition take_at :: "nat list \<Rightarrow> nat list \<Rightarrow> nat list" where
  "take_at S ks = map (\<lambda>k. S ! k) ks"

definition connected_nodes :: "agent \<Rightarrow> py_error + nat list" where
  "connected_nodes a =
     (case kill_self_loops (cm a) of
        Inl e \<Rightarrow> Inl e
      | Inr m \<Rightarrow>
     (case as_index (sensor_ixs a) of
        Inl e \<Rightarrow> Inl e
      | Inr S \<Rightarrow>
     (case getrows m S of
        Inl e \<Rightarrow> Inl e
      | Inr srows \<Rightarrow>
     (case as_index (motor_ixs a) of
        Inl e \<Rightarrow> Inl e
      | Inr M \<Rightarrow>
     (case getcols m M of
        Inl e \<Rightarrow> Inl e
      | Inr mcols \<Rightarrow>
     (case densely_connected_nodes m False of
        Inl e \<Rightarrow> Inl e
      | Inr cH \<Rightarrow>
          Inr (sort (take_at S (np_where (gt0 (sum_axis1 srows)))
                     @ take_at M (np_where (gt0 (sum_axis0 mcols)))
                     @ cH))))))))"

text \<open>\<^verbatim>\<open>pd.DataFrame(d, index = ix)\<close> of a dictionary of scalars: one column per key, in
  the dictionary's order, and the same row for every index label.\<close>

definition DataFrame :: "(string \<times> cell) list \<Rightarrow> int list \<Rightarrow> dataframe" where
  "DataFrame d ix =
     \<lparr>df_columns = map fst d, df_index = ix, df_rows = map (\<lambda>_. map snd d) ix\<rparr>"

definition number_of_connected_nodes_by_type :: "agent \<Rightarrow> py_error + dataframe" where
  "number_of_connected_nodes_by_type a =
     (case number_of_connected_sensors (cm a) (sensor_ixs a) of
        Inl e \<Rightarrow> Inl e
      | Inr cS \<Rightarrow>
     (case number_of_densely_connected_nodes (cm a) False of
        Inl e \<Rightarrow> Inl e
      | Inr cH \<Rightarrow>
     (case number_of_connected_motors (cm a) (motor_ixs a) of
        Inl e \<Rightarrow> Inl e
      | Inr cM \<Rightarrow>
          Inr (DataFrame
                 [(''cN'', IntV (int (cS + cH + cM))),
                  (''cS'', IntV (int cS)),
                  (''cH'', IntV (int cH)),
                  (''cM'', IntV (int cM))] [1]))))"

text \<open>The value of a column in the first row of a frame.\<close>

definition df_value :: "dataframe \<Rightarrow> string \<Rightarrow> cell option" where
  "df_value df c =
     (case df_rows df of [] \<Rightarrow> None | r # _ \<Rightarrow> map_of (zip (df_columns df) r) c)"

subsection \<open>Connection counting\<close>

definition number_of_connections :: "matrix \<Rightarrow> nat list \<Rightarrow> nat list \<Rightarrow> py_error + nat" where
  "number_of_connections m a_ixs b_ixs =
     (case np_ix m a_ixs b_ixs of
        Inl e \<Rightarrow> Inl e
      | Inr sub \<Rightarrow> Inr (np_count (gt0 (concat sub))))"

text \<open>
  \<^verbatim>\<open>list(ind.intersection(xs))\<close> for a Python set \<open>ind\<close>: the members of \<open>xs\<close> that are in
  \<open>ind\<close>, each once. Python leaves the order of the list open; the counts below do not
  depend on it.
\<close>

definition set_intersection :: "nat list \<Rightarrow> nat list \<Rightarrow> nat list" where
  "set_intersection ind xs = remdups (filter (\<lambda>x. x \<in> set ind) xs)"

definition number_of_connections_by_type :: "agent \<Rightarrow> bool \<Rightarrow> py_error + dataframe" where
  "number_of_connections_by_type a connected_only =
     (case (if connected_only then connected_nodes a else Inr [0..<n_nodes a]) of
        Inl e \<Rightarrow> Inl e
      | Inr ind \<Rightarrow>
          (let S = set_intersection ind (sensor_ixs a);
               M = set_intersection ind (motor_ixs a);
               H = set_intersection ind (hidden_ixs a)
           in
     (case number_of_connections (cm a) S M of
        Inl e \<Rightarrow> Inl e
      | Inr s_m \<Rightarrow>
     (case number_of_connections (cm a) S H of
        Inl e \<Rightarrow> Inl e
      | Inr s_h \<Rightarrow>
     (case number_of_connections (cm a) H H of
        Inl e \<Rightarrow> Inl e
      | Inr h_h \<Rightarrow>
     (case number_of_connections (cm a) H M of
        Inl e \<Rightarrow> Inl e
      | Inr h_m \<Rightarrow>
          Inr (DataFrame
                 [(''s_m'', IntV (int s_m)),
                  (''s_h'', IntV (int s_h)),
                  (''h_h'', IntV (int h_h)),
                  (''h_m'', IntV (int h_m))] [1])))))))"

subsection \<open>The networkx operations the source uses\<close>

text \<open>
  A directed graph built by \<^verbatim>\<open>nx.from_numpy_matrix\<close> has the nodes \<open>0, \<dots>, n - 1\<close> and an
  edge \<open>u \<rightarrow> v\<close> for every non-zero entry \<open>(u, v)\<close>, weighted by the entry. It is modelled
  by its weighted adjacency matrix, which is also what \<^verbatim>\<open>nx.adjacency_matrix\<close> gives back.
  The component functions follow networkx's documented meaning: a strongly connected
  component is a class of mutually reachable nodes, a weakly connected component a class
  of nodes reachable from each other when the direction of the edges is ignored.
\<close>

type_synonym digraph = matrix

definition from_numpy_matrix :: "matrix \<Rightarrow> py_error + digraph" where
  "from_numpy_matrix A =
     (if \<forall>r \<in> set A. length r = length A then Inr A else Inl NetworkXError)"

definition has_edge :: "digraph \<Rightarrow> nat \<Rightarrow> nat \<Rightarrow> bool" where
  "has_edge G u v = (G ! u ! v \<noteq> 0)"

definition successors :: "digraph \<Rightarrow> nat \<Rightarrow> nat list" where
  "successors G u = filter (\<lambda>v. has_edge G u v) [0..<length G]"

definition neighbours :: "digraph \<Rightarrow> nat \<Rightarrow> nat list" where
  "neighbours G u = filter (\<lambda>v. has_edge G u v \<or> has_edge G v u) [0..<length G]"

text \<open>The nodes reached from \<open>xs\<close> in at most \<open>k\<close> steps along \<open>nb\<close>.\<close>

fun expand :: "(nat \<Rightarrow> nat list) \<Rightarrow> nat \<Rightarrow> nat list \<Rightarrow> nat list" where
  "expand nb 0 xs = xs"
| "expand nb (Suc k) xs = expand nb k (remdups (xs @ concat (map nb xs)))"

definition reachable :: "(nat \<Rightarrow> nat list) \<Rightarrow> nat \<Rightarrow> nat \<Rightarrow> nat list" where
  "reachable nb n u = expand nb n [u]"

definition strongly_connected_components :: "digraph \<Rightarrow> nat list list" where
  "strongly_connected_components G =
     (let n = length G;
          R = map (reachable (successors G) n) [0..<n]
      in remdups (map (\<lambda>u. filter (\<lambda>v. v \<in> set (R ! u) \<and> u \<in> set (R ! v)) [0..<n]) [0..<n]))"

definition weakly_connected_components :: "digraph \<Rightarrow> nat list list" where
  "weakly_connected_components G =
     (let n = length G;
          R = map (reachable (neighbours G) n) [0..<n]
      in remdups (map (\<lambda>u. filter (\<lambda>v. v \<in> set (R ! u)) [0..<n]) [0..<n]))"

text \<open>\<^verbatim>\<open>max(cs, key=len)\<close>: the first longest element; \<^verbatim>\<open>ValueError\<close> on an empty sequence.\<close>

fun longest :: "'a list \<Rightarrow> 'a list list \<Rightarrow> 'a list" where
  "longest best [] = best"
| "longest best (c # cs) = longest (if length best < length c then c else best) cs"

definition max_by_len :: "'a list list \<Rightarrow> py_error + 'a list" where
  "max_by_len cs = (case cs of [] \<Rightarrow> Inl ValueError | c # rest \<Rightarrow> Inr (longest c rest))"

definition graph_size :: "digraph \<Rightarrow> nat" where
  "graph_size G =
     length (filter (\<lambda>(u, v). has_edge G u v) (List.product [0..<length G] [0..<length G]))"

definition edges_inside :: "digraph \<Rightarrow> nat list \<Rightarrow> nat" where
  "edges_inside G c = length (filter (\<lambda>(u, v). has_edge G u v) (List.product c c))"

text \<open>
  \<^verbatim>\<open>1.0 - sum(G.subgraph(c).size() for c in scc) / float(G.size())\<close>: a float division,
  which raises on a graph without edges.
\<close>

definition flow_hierarchy :: "digraph \<Rightarrow> py_error + pyfloat" where
  "flow_hierarchy G =
     (if graph_size G = 0 then Inl ZeroDivisionError
      else Inr (Fin (1 - of_nat (sum_list (map (edges_inside G) (strongly_connected_components G)))
                         / of_nat (graph_size G))))"

definition degree :: "digraph \<Rightarrow> nat \<Rightarrow> nat" where
  "degree G v = length (successors G v) + length (filter (\<lambda>u. has_edge G u v) [0..<length G])"

definition degree_centrality :: "digraph \<Rightarrow> rat list" where
  "degree_centrality G =
     (if length G \<le> 1 then map (\<lambda>_. 1) [0..<length G]
      else map (\<lambda>v. of_nat (degree G v) * (1 / (of_nat (length G) - 1))) [0..<length G])"

subsection \<open>Topology metrics\<close>

definition LSCC :: "digraph \<Rightarrow> py_error + nat list option" where
  "LSCC G =
     (case max_by_len (strongly_connected_components G) of
        Inl e \<Rightarrow> Inl e
      | Inr c \<Rightarrow> Inr (if length c < 2 then None else Some c))"

definition len_LSCC :: "digraph \<Rightarrow> py_error + nat" where
  "len_LSCC G =
     (case max_by_len (strongly_connected_components G) of
        Inl e \<Rightarrow> Inl e
      | Inr c \<Rightarrow> Inr (length c))"

definition len_LWCC :: "digraph \<Rightarrow> py_error + nat" where
  "len_LWCC G =
     (case max_by_len (weakly_connected_components G) of
        Inl e \<Rightarrow> Inl e
      | Inr c \<Rightarrow> Inr (length c))"

text \<open>
  Division of a Python number by a numpy integer (the count \<^verbatim>\<open>np.sum\<close> returns) is
  numpy's: dividing by zero gives \<open>nan\<close> or an infinity, with a warning and no exception.
  Division by a Python integer (a \<^verbatim>\<open>len\<close>) raises instead.
\<close>

definition np_true_divide :: "rat \<Rightarrow> nat \<Rightarrow> pyfloat" where
  "np_true_divide s d =
     (if d = 0 then (if s = 0 then NaN else if 0 < s then PosInf else NegInf)
      else Fin (s / of_nat d))"

definition py_true_divide :: "rat \<Rightarrow> nat \<Rightarrow> py_error + pyfloat" where
  "py_true_divide s d = (if d = 0 then Inl ZeroDivisionError else Inr (Fin (s / of_nat d)))"

text \<open>
  \<^verbatim>\<open>nx.adjacency_matrix(G)\<close> gives back the weights of the graph, and raises on a graph
  without nodes.
\<close>

definition adjacency_matrix :: "digraph \<Rightarrow> py_error + matrix" where
  "adjacency_matrix G = (if G = [] then Inl NetworkXError else Inr G)"

text \<open>
  \<^verbatim>\<open>betweenness_centrality\<close> is networkx's; it is a parameter \<open>bc\<close> here, giving the
  centralities of a graph's nodes. In the branch for \<^verbatim>\<open>connected_only = False\<close> the source
  reads a name \<^verbatim>\<open>agent\<close> that is neither a parameter nor a local of the function, so Python
  looks it up among the module's globals: \<open>g_agent\<close> is that binding, \<open>None\<close> when the module
  has none (the file itself defines none).
\<close>

definition average_betweenness_centrality ::
  "(digraph \<Rightarrow> rat list) \<Rightarrow> agent option \<Rightarrow> digraph \<Rightarrow> bool \<Rightarrow> py_error + pyfloat" where
  "average_betweenness_centrality bc g_agent G connected_only =
     (let HBC = bc G in
      if connected_only then
        (case adjacency_matrix G of
           Inl e \<Rightarrow> Inl e
         | Inr am \<Rightarrow>
        (case number_of_densely_connected_nodes am False of
           Inl e \<Rightarrow> Inl e
         | Inr num_hidden \<Rightarrow> Inr (np_true_divide (sum_list HBC) num_hidden)))
      else
        (case g_agent of
           None \<Rightarrow> Inl NameError
         | Some ag \<Rightarrow> py_true_divide (sum_list HBC) (length (hidden_ixs ag))))"

definition average_degree_centrality :: "digraph \<Rightarrow> py_error + pyfloat" where
  "average_degree_centrality G =
     (let DC_list = degree_centrality G
      in py_true_divide (sum_list DC_list) (length DC_list))"

subsection \<open>The report\<close>

text \<open>
  \<^verbatim>\<open>df.join(other)\<close>: a left join on the index labels. The columns of \<open>other\<close> follow those
  of \<open>df\<close>; a label \<open>other\<close> lacks gives missing values; a column name in both raises.
\<close>

definition df_join :: "dataframe \<Rightarrow> dataframe \<Rightarrow> py_error + dataframe" where
  "df_join df other =
     (if set (df_columns df) \<inter> set (df_columns other) \<noteq> {} then Inl ValueError
      else Inr \<lparr>df_columns = df_columns df @ df_columns other,
                df_index = df_index df,
                df_rows =
                  map (\<lambda>(i, r).
                         r @ (case map_of (zip (df_index other) (df_rows other)) i of
                                Some r' \<Rightarrow> r'
                              | None \<Rightarrow> map (\<lambda>_. FloatV NaN) (df_columns other)))
                      (zip (df_index df) (df_rows df))\<rparr>)"

text \<open>
  The graph for \<^verbatim>\<open>connected_only = True\<close>: \<^verbatim>\<open>connected_nodes\<close> returns a numpy array, which
  \<^verbatim>\<open>np.ix_\<close> takes as it is. When no node is connected that array is \<^verbatim>\<open>np.sort([])\<close>, of
  dtype float64, and indexing the matrix with it raises.
\<close>

definition induced_graph :: "agent \<Rightarrow> py_error + digraph" where
  "induced_graph a =
     (case connected_nodes a of
        Inl e \<Rightarrow> Inl e
      | Inr ind \<Rightarrow>
     (case as_index ind of
        Inl e \<Rightarrow> Inl e
      | Inr ind_con \<Rightarrow>
     (case np_ix (cm a) ind_con ind_con of
        Inl e \<Rightarrow> Inl e
      | Inr cm_connected \<Rightarrow> from_numpy_matrix cm_connected)))"

text \<open>
  \<^verbatim>\<open>get_graph\<close> comes from the module \<^verbatim>\<open>utils\<close>; it is a parameter of the model.
\<close>

definition fullStructuralAnalysis ::
  "(digraph \<Rightarrow> rat list) \<Rightarrow> agent option \<Rightarrow> (agent \<Rightarrow> py_error + digraph) \<Rightarrow>
     agent \<Rightarrow> bool \<Rightarrow> py_error + dataframe" where
  "fullStructuralAnalysis bc g_agent get_graph a connected_only =
     (case number_of_connected_nodes_by_type a of
        Inl e \<Rightarrow> Inl e
      | Inr df0 \<Rightarrow>
     (case number_of_connections_by_type a connected_only of
        Inl e \<Rightarrow> Inl e
      | Inr conns \<Rightarrow>
     (case df_join df0 conns of
        Inl e \<Rightarrow> Inl e
      | Inr df1 \<Rightarrow>
     (case (if connected_only then induced_graph a else get_graph a) of
        Inl e \<Rightarrow> Inl e
      | Inr G \<Rightarrow>
     (case len_LSCC G of
        Inl e \<Rightarrow> Inl e
      | Inr lscc \<Rightarrow>
     (case len_LWCC G of
        Inl e \<Rightarrow> Inl e
      | Inr lwcc \<Rightarrow>
     (case flow_hierarchy G of
        Inl e \<Rightarrow> Inl e
      | Inr fh \<Rightarrow>
     (case average_betweenness_centrality bc g_agent G connected_only of
        Inl e \<Rightarrow> Inl e
      | Inr abc \<Rightarrow>
     (case average_degree_centrality G of
        Inl e \<Rightarrow> Inl e
      | Inr adc \<Rightarrow>
          df_join df1
            (DataFrame
               [(''len_LSCC'', IntV (int lscc)),
                (''len_LWCC'', IntV (int lwcc)),
                (''flow_hierarchy'', FloatV fh),
                (''av_betweenness_centrality'', FloatV abc),
                (''av_degree_centrality'', FloatV adc)] [1]))))))))))"

text \<open>
  \<^verbatim>\<open>pd.DataFrame(dtype=float, columns=[...], index=range(index_num))\<close>: a frame with no
  data, so every cell is missing (\<open>nan\<close>).
\<close>

definition emptyStructuralAnalysis :: "nat \<Rightarrow> dataframe" where
  "emptyStructuralAnalysis index_num =
     (let cols = [''cN'', ''cS'', ''cH'', ''cM'', ''s_m'', ''s_h'', ''h_h'', ''h_m'',
                  ''len_LSCC'', ''len_LWCC'', ''flow_hierarchy'',
                  ''av_betweenness_centrality'', ''av_degree_centrality'']
      in \<lparr>df_columns = cols,
          df_index = map int [0..<index_num],
          df_rows = map (\<lambda>_. map (\<lambda>_. FloatV NaN) cols) [0..<index_num]\<rparr>)"

subsection \<open>Well-formed matrices\<close>

text \<open>
  The connectivity matrix of an agent is \<open>N \<times> N\<close> and its weights are not negative. The
  functions above do not check this; the properties that need it assume it. \<open>sums_fit\<close>
  says that no sum or product numpy forms from the rows and columns of a non-negative
  matrix overflows: each row sum, each column sum and, for each node, the product of the
  two is below \<open>2^63\<close>.
\<close>

definition square :: "matrix \<Rightarrow> bool" where
  "square m = list_all (\<lambda>r. length r = length m) m"

definition nonneg :: "matrix \<Rightarrow> bool" where
  "nonneg m = list_all (list_all (\<lambda>x. 0 \<le> x)) m"

definition colsum :: "matrix \<Rightarrow> nat \<Rightarrow> int" where
  "colsum m j = sum_list (map (\<lambda>r. r ! j) m)"

definition sums_fit :: "matrix \<Rightarrow> bool" where
  "sums_fit m =
     list_all (\<lambda>k. sum_list (m ! k) < 2 ^ 63 \<and> colsum m k < 2 ^ 63
                   \<and> colsum m k * sum_list (m ! k) < 2 ^ 63) [0..<length m]"

text \<open>
  Notions used in the proofs: the int64 sums of a row and of a column, the test numpy
  makes on the product of the two, the entrywise order on matrices of one shape, and the
  list \<^verbatim>\<open>connected_nodes\<close> returns, written with the diagonal-free matrix \<open>m1\<close> and its
  diagonal-free copy \<open>m2\<close>.
\<close>

definition rsum :: "matrix \<Rightarrow> nat \<Rightarrow> int" where
  "rsum m k = wrap64 (sum_list (m ! k))"

definition csum :: "matrix \<Rightarrow> nat \<Rightarrow> int" where
  "csum m j = wrap64 (colsum m j)"

definition dense :: "matrix \<Rightarrow> nat \<Rightarrow> bool" where
  "dense m k = (0 < wrap64 (csum m k * rsum m k))"

definition mat_le :: "matrix \<Rightarrow> matrix \<Rightarrow> bool" where
  "mat_le m n =
     (map length m = map length n \<and> (\<forall>a < length m. \<forall>b < length (m ! a). m ! a ! b \<le> n ! a ! b))"

definition connected_list :: "matrix \<Rightarrow> matrix \<Rightarrow> nat list \<Rightarrow> nat list \<Rightarrow> nat list" where
  "connected_list m1 m2 S M =
     sort (filter (\<lambda>s. 0 < rsum m1 s) S
           @ filter (\<lambda>t. 0 < csum m1 t) M
           @ filter (dense m2) [0..<length m1])"

subsection \<open>The same functions on a store of arrays\<close>

text \<open>
  A numpy array is a mutable object, and \<^verbatim>\<open>agent.cm\<close> is a reference to the caller's
  array. To state what a call leaves untouched, the functions that copy and assign are
  modelled a second time on a store: a list of arrays, an address being a position in it.
  Allocation appends, \<^verbatim>\<open>cm[i,i] = 0\<close> updates the array at an address in place, and every
  function returns the store it leaves behind, also when it raises. Indexing with a list
  and \<^verbatim>\<open>np.sum\<close> build fresh temporaries that nothing else refers to; they stay values.
\<close>

type_synonym heap = "matrix list"

record agent_ref =
  cm_ref :: nat
  ref_sensor_ixs :: "nat list"
  ref_hidden_ixs :: "nat list"
  ref_motor_ixs :: "nat list"
  ref_n_nodes :: nat

definition deref :: "heap \<Rightarrow> agent_ref \<Rightarrow> agent" where
  "deref h r =
     \<lparr>cm = h ! cm_ref r, sensor_ixs = ref_sensor_ixs r, hidden_ixs = ref_hidden_ixs r,
      motor_ixs = ref_motor_ixs r, n_nodes = ref_n_nodes r\<rparr>"

text \<open>A new array in the store; \<^verbatim>\<open>copy.copy\<close> of a numpy array is a new array with the
  same entries.\<close>

definition new_array :: "heap \<Rightarrow> matrix \<Rightarrow> nat \<times> heap" where
  "new_array h m = (length h, h @ [m])"

definition copy_copy :: "heap \<Rightarrow> nat \<Rightarrow> nat \<times> heap" where
  "copy_copy h p = new_array h (h ! p)"

text \<open>\<^verbatim>\<open>for i in range(len(cm)): cm[i,i] = 0\<close> on the array at address \<open>c\<close>.\<close>

fun st_kill_loop :: "nat list \<Rightarrow> nat \<Rightarrow> heap \<Rightarrow> (py_error + unit) \<times> heap" where
  "st_kill_loop [] c h = (Inr (), h)"
| "st_kill_loop (i # is) c h =
     (case setitem (h ! c) i i 0 of
        Inl e \<Rightarrow> (Inl e, h)
      | Inr m \<Rightarrow> st_kill_loop is c (h[c := m]))"

text \<open>\<^verbatim>\<open>cm = copy.copy(cm_agent)\<close> and the loop; the result is the address of the copy.\<close>

definition st_copy_without_loops :: "heap \<Rightarrow> nat \<Rightarrow> bool \<Rightarrow> (py_error + nat) \<times> heap" where
  "st_copy_without_loops h p allow_self_loops =
     (case copy_copy h p of
        (c, h1) \<Rightarrow>
          if \<not> allow_self_loops then
            (case st_kill_loop [0..<length (h1 ! c)] c h1 of
               (Inl e, h2) \<Rightarrow> (Inl e, h2)
             | (Inr u, h2) \<Rightarrow> (Inr c, h2))
          else (Inr c, h1))"

definition st_number_of_densely_connected_nodes ::
  "heap \<Rightarrow> nat \<Rightarrow> bool \<Rightarrow> (py_error + nat) \<times> heap" where
  "st_number_of_densely_connected_nodes h p allow_self_loops =
     (case st_copy_without_loops h p allow_self_loops of
        (Inl e, h1) \<Rightarrow> (Inl e, h1)
      | (Inr c, h1) \<Rightarrow>
          (case np_mult (sum_axis0 (h1 ! c)) (sum_axis1 (h1 ! c)) of
             Inl e \<Rightarrow> (Inl e, h1)
           | Inr pr \<Rightarrow> (Inr (np_count (gt0 pr)), h1)))"

definition st_densely_connected_nodes ::
  "heap \<Rightarrow> nat \<Rightarrow> bool \<Rightarrow> (py_error + nat list) \<times> heap" where
  "st_densely_connected_nodes h p allow_self_loops =
     (case st_copy_without_loops h p allow_self_loops of
        (Inl e, h1) \<Rightarrow> (Inl e, h1)
      | (Inr c, h1) \<Rightarrow>
          (case np_mult (sum_axis0 (h1 ! c)) (sum_axis1 (h1 ! c)) of
             Inl e \<Rightarrow> (Inl e, h1)
           | Inr pr \<Rightarrow> (Inr (np_where (gt0 pr)), h1)))"

definition st_connected_nodes :: "heap \<Rightarrow> agent_ref \<Rightarrow> (py_error + nat list) \<times> heap" where
  "st_connected_nodes h r =
     (case st_copy_without_loops h (cm_ref r) False of
        (Inl e, h1) \<Rightarrow> (Inl e, h1)
      | (Inr c, h1) \<Rightarrow>
     (case as_index (ref_sensor_ixs r) of
        Inl e \<Rightarrow> (Inl e, h1)
      | Inr S \<Rightarrow>
     (case getrows (h1 ! c) S of
        Inl e \<Rightarrow> (Inl e, h1)
      | Inr srows \<Rightarrow>
     (case as_index (ref_motor_ixs r) of
        Inl e \<Rightarrow> (Inl e, h1)
      | Inr M \<Rightarrow>
     (case getcols (h1 ! c) M of
        Inl e \<Rightarrow> (Inl e, h1)
      | Inr mcols \<Rightarrow>
     (case st_densely_connected_nodes h1 c False of
        (Inl e, h2) \<Rightarrow> (Inl e, h2)
      | (Inr cH, h2) \<Rightarrow>
          (Inr (sort (take_at S (np_where (gt0 (sum_axis1 srows)))
                      @ take_at M (np_where (gt0 (sum_axis0 mcols)))
                      @ cH)), h2)))))))"

text \<open>
  \<^verbatim>\<open>cm = agent.cm\<close> binds a second name to the caller's array: the motors are tested on
  whatever the array holds after \<^verbatim>\<open>number_of_densely_connected_nodes(cm)\<close> has run.
\<close>

definition st_number_of_connected_nodes_by_type ::
  "heap \<Rightarrow> agent_ref \<Rightarrow> (py_error + dataframe) \<times> heap" where
  "st_number_of_connected_nodes_by_type h r =
     (case number_of_connected_sensors (h ! cm_ref r) (ref_sensor_ixs r) of
        Inl e \<Rightarrow> (Inl e, h)
      | Inr cS \<Rightarrow>
     (case st_number_of_densely_connected_nodes h (cm_ref r) False of
        (Inl e, h1) \<Rightarrow> (Inl e, h1)
      | (Inr cH, h1) \<Rightarrow>
     (case number_of_connected_motors (h1 ! cm_ref r) (ref_motor_ixs r) of
        Inl e \<Rightarrow> (Inl e, h1)
      | Inr cM \<Rightarrow>
          (Inr (DataFrame
                  [(''cN'', IntV (int (cS + cH + cM))),
                   (''cS'', IntV (int cS)),
                   (''cH'', IntV (int cH)),
                   (''cM'', IntV (int cM))] [1]), h1))))"

definition st_number_of_connections_by_type ::
  "heap \<Rightarrow> agent_ref \<Rightarrow> bool \<Rightarrow> (py_error + dataframe) \<times> heap" where
  "st_number_of_connections_by_type h r connected_only =
     (case (if connected_only then st_connected_nodes h r else (Inr [0..<ref_n_nodes r], h)) of
        (Inl e, h1) \<Rightarrow> (Inl e, h1)
      | (Inr ind, h1) \<Rightarrow>
          (let S = set_intersection ind (ref_sensor_ixs r);
               M = set_intersection ind (ref_motor_ixs r);
               H = set_intersection ind (ref_hidden_ixs r)
           in
     (case number_of_connections (h1 ! cm_ref r) S M of
        Inl e \<Rightarrow> (Inl e, h1)
      | Inr s_m \<Rightarrow>
     (case number_of_connections (h1 ! cm_ref r) S H of
        Inl e \<Rightarrow> (Inl e, h1)
      | Inr s_h \<Rightarrow>
     (case number_of_connections (h1 ! cm_ref r) H H of
        Inl e \<Rightarrow> (Inl e, h1)
      | Inr h_h \<Rightarrow>
     (case number_of_connections (h1 ! cm_ref r) H M of
        Inl e \<Rightarrow> (Inl e, h1)
      | Inr h_m \<Rightarrow>
          (Inr (DataFrame
                  [(''s_m'', IntV (int s_m)),
                   (''s_h'', IntV (int s_h)),
                   (''h_h'', IntV (int h_h)),
                   (''h_m'', IntV (int h_m))] [1]), h1)))))))"

text \<open>\<^verbatim>\<open>np.array(nx.adjacency_matrix(G).todense())\<close> is a new array.\<close>

definition st_average_betweenness_centrality ::
  "(digraph \<Rightarrow> rat list) \<Rightarrow> agent_ref option \<Rightarrow> heap \<Rightarrow> digraph \<Rightarrow> bool \<Rightarrow>
     (py_error + pyfloat) \<times> heap" where
  "st_average_betweenness_centrality bc g_agent h G connected_only =
     (let HBC = bc G in
      if connected_only then
        (case adjacency_matrix G of
           Inl e \<Rightarrow> (Inl e, h)
         | Inr am \<Rightarrow>
        (case new_array h am of
           (q, h1) \<Rightarrow>
             (case st_number_of_densely_connected_nodes h1 q False of
                (Inl e, h2) \<Rightarrow> (Inl e, h2)
              | (Inr num_hidden, h2) \<Rightarrow> (Inr (np_true_divide (sum_list HBC) num_hidden), h2))))
      else
        (case g_agent of
           None \<Rightarrow> (Inl NameError, h)
         | Some ag \<Rightarrow> (py_true_divide (sum_list HBC) (length (ref_hidden_ixs ag)), h)))"

text \<open>
  \<^verbatim>\<open>get_graph\<close> receives the agent object, so on the store it is a parameter that may
  itself change arrays.
\<close>

definition st_fullStructuralAnalysis ::
  "(digraph \<Rightarrow> rat list) \<Rightarrow> agent_ref option \<Rightarrow>
     (heap \<Rightarrow> agent_ref \<Rightarrow> (py_error + digraph) \<times> heap) \<Rightarrow>
     heap \<Rightarrow> agent_ref \<Rightarrow> bool \<Rightarrow> (py_error + dataframe) \<times> heap" where
  "st_fullStructuralAnalysis bc g_agent get_graph h r connected_only =
     (case st_number_of_connected_nodes_by_type h r of
        (Inl e, h1) \<Rightarrow> (Inl e, h1)
      | (Inr df0, h1) \<Rightarrow>
     (case st_number_of_connections_by_type h1 r connected_only of
        (Inl e, h2) \<Rightarrow> (Inl e, h2)
      | (Inr conns, h2) \<Rightarrow>
     (case df_join df0 conns of
        Inl e \<Rightarrow> (Inl e, h2)
      | Inr df1 \<Rightarrow>
     (case (if connected_only then
              (case st_connected_nodes h2 r of
                 (Inl e, h3) \<Rightarrow> (Inl e, h3)
               | (Inr ind, h3) \<Rightarrow>
                   (case as_index ind of
                      Inl e \<Rightarrow> (Inl e, h3)
                    | Inr ind_con \<Rightarrow>
                   (case np_ix (h3 ! cm_ref r) ind_con ind_con of
                      Inl e \<Rightarrow> (Inl e, h3)
                    | Inr cm_connected \<Rightarrow>
                        (case new_array h3 cm_connected of
                           (q, h4) \<Rightarrow> (from_numpy_matrix (h4 ! q), h4)))))
            else get_graph h2 r) of
        (Inl e, h5) \<Rightarrow> (Inl e, h5)
      | (Inr G, h5) \<Rightarrow>
     (case len_LSCC G of
        Inl e \<Rightarrow> (Inl e, h5)
      | Inr lscc \<Rightarrow>
     (case len_LWCC G of
        Inl e \<Rightarrow> (Inl e, h5)
      | Inr lwcc \<Rightarrow>
     (case flow_hierarchy G of
        Inl e \<Rightarrow> (Inl e, h5)
      | Inr fh \<Rightarrow>
     (case st_average_betweenness_centrality bc g_agent h5 G connected_only of
        (Inl e, h6) \<Rightarrow> (Inl e, h6)
      | (Inr abc, h6) \<Rightarrow>
     (case average_degree_centrality G of
        Inl e \<Rightarrow> (Inl e, h6)
      | Inr adc \<Rightarrow>
          (df_join df1
             (DataFrame
                [(''len_LSCC'', IntV (int lscc)),
                 (''len_LWCC'', IntV (int lwcc)),
                 (''flow_hierarchy'', FloatV fh),
                 (''av_betweenness_centrality'', FloatV abc),
                 (''av_degree_centrality'', FloatV adc)] [1]), h6))))))))))"

text \<open>Every array of the store \<open>h\<close> is still there in \<open>h'\<close>, entry for entry.\<close>

definition unchanged :: "heap \<Rightarrow> heap \<Rightarrow> bool" where
  "unchanged h h' = (take (length h) h' = h)"

subsection \<open>Example agents\<close>

text \<open>The four-node agent of the concrete scenario: edges 0\<rightarrow>1, 1\<rightarrow>2, 2\<rightarrow>1, 2\<rightarrow>3.\<close>

definition chain_agent :: agent where
  "chain_agent =
     \<lparr>cm = [[0, 1, 0, 0], [0, 0, 1, 0], [0, 1, 0, 1], [0, 0, 0, 0]],
      sensor_ixs = [0], hidden_ixs = [1, 2], motor_ixs = [3], n_nodes = 4\<rparr>"

text \<open>A sensor whose only edge is a self-loop; the hidden node and the motor are isolated.\<close>

definition self_loop_agent :: agent where
  "self_loop_agent =
     \<lparr>cm = [[1, 0, 0], [0, 0, 0], [0, 0, 0]],
      sensor_ixs = [0], hidden_ixs = [1], motor_ixs = [2], n_nodes = 3\<rparr>"

text \<open>
  Sensor 0 feeds hidden node 1, which feeds motor 2 and feeds back to the sensor: edges
  0\<rightarrow>1, 1\<rightarrow>0, 1\<rightarrow>2.
\<close>

definition feedback_agent :: agent where
  "feedback_agent =
     \<lparr>cm = [[0, 1, 0], [1, 0, 1], [0, 0, 0]],
      sensor_ixs = [0], hidden_ixs = [1], motor_ixs = [2], n_nodes = 3\<rparr>"

text \<open>A sensor and a motor wired in both directions, and no hidden node.\<close>

definition loop_agent :: agent where
  "loop_agent =
     \<lparr>cm = [[0, 1], [1, 0]], sensor_ixs = [0], hidden_ixs = [], motor_ixs = [1], n_nodes = 2\<rparr>"

text \<open>
  Sensor 0 feeds hidden node 1 and motor 3, hidden node 1 feeds motor 3; motor 4 has no
  input. All weights are 1.
\<close>

definition fan_agent :: agent where
  "fan_agent =
     \<lparr>cm = [[0, 1, 0, 1, 0], [0, 0, 0, 1, 0], [0, 0, 0, 0, 0], [0, 0, 0, 0, 0],
            [0, 0, 0, 0, 0]],
      sensor_ixs = [0], hidden_ixs = [1, 2], motor_ixs = [3, 4], n_nodes = 5\<rparr>"

text \<open>A sensor wired to a motor, and no hidden node.\<close>

definition direct_agent :: agent where
  "direct_agent =
     \<lparr>cm = [[0, 1], [0, 0]], sensor_ixs = [0], hidden_ixs = [], motor_ixs = [1], n_nodes = 2\<rparr>"

text \<open>No edge at all.\<close>

definition silent_agent :: agent where
  "silent_agent =
     \<lparr>cm = [[0, 0, 0], [0, 0, 0], [0, 0, 0]],
      sensor_ixs = [0], hidden_ixs = [1], motor_ixs = [2], n_nodes = 3\<rparr>"

text \<open>A sensor feeding a hidden node that has no output.\<close>

definition dead_end_agent :: agent where
  "dead_end_agent =
     \<lparr>cm = [[0, 1, 0], [0, 0, 0], [0, 0, 0]],
      sensor_ixs = [0], hidden_ixs = [1], motor_ixs = [2], n_nodes = 3\<rparr>"

text \<open>The chain agent and the self-loop agent as objects whose matrix is at address 0.\<close>

definition chain_ref :: agent_ref where
  "chain_ref =
     \<lparr>cm_ref = 0, ref_sensor_ixs = [0], ref_hidden_ixs = [1, 2], ref_motor_ixs = [3],
      ref_n_nodes = 4\<rparr>"

definition self_loop_ref :: agent_ref where
  "self_loop_ref =
     \<lparr>cm_ref = 0, ref_sensor_ixs = [0], ref_hidden_ixs = [1], ref_motor_ixs = [2],
      ref_n_nodes = 3\<rparr>"

text \<open>
  An agent with negative weights: the hidden nodes 1 and 3 have negative row and column
  sums, whose product is positive.
\<close>

definition signed_agent :: agent where
  "signed_agent =
     \<lparr>cm = [[0, 0, 0, 0, 0], [0, 0, 0, -2, 1], [0, 0, 0, 0, 0], [0, -1, 0, 0, 0],
            [0, 0, 0, 0, 0]],
      sensor_ixs = [0], hidden_ixs = [1, 3], motor_ixs = [2, 4], n_nodes = 5\<rparr>"

section \<open>Properties\<close>

subsection \<open>Shapes and defined results\<close>

lemma in_int64_0 [simp]: "in_int64 0"
  by (simp add: in_int64_def)

lemma wrap64_id: "0 \<le> x \<Longrightarrow> x < 2 ^ 63 \<Longrightarrow> wrap64 x = x"
  by (simp add: wrap64_def)

lemma setitem_shape: "setitem m i j v = Inr m' \<Longrightarrow> map length m' = map length m"
  by (auto simp: setitem_def nrows_def map_update list_update_same_conv split: if_splits)

lemma kill_loop_shape: "kill_loop is m = Inr m' \<Longrightarrow> map length m' = map length m"
proof (induction "is" arbitrary: m)
  case Nil
  then show ?case by simp
next
  case (Cons i "is")
  then show ?case
    by (auto split: sum.splits dest!: setitem_shape)
qed

lemma kill_self_loops_shape: "kill_self_loops m = Inr m' \<Longrightarrow> map length m' = map length m"
  unfolding kill_self_loops_def by (rule kill_loop_shape)

lemma same_shape_nrows: "map length m' = map length m \<Longrightarrow> nrows m' = nrows m"
  unfolding nrows_def by (metis length_map)

lemma same_shape_ncols: "map length m' = map length m \<Longrightarrow> ncols m' = ncols m"
  by (cases m; cases m') (auto simp: ncols_def)

lemma length_sum_axis0 [simp]: "length (sum_axis0 m) = ncols m"
  by (simp add: sum_axis0_def)

lemma length_sum_axis1 [simp]: "length (sum_axis1 m) = nrows m"
  by (simp add: sum_axis1_def nrows_def)

lemma np_count_where: "np_count bs = length (np_where bs)"
proof -
  have "filter (\<lambda>b. b) bs = filter (\<lambda>b. b) (map (\<lambda>k. bs ! k) [0..<length bs])"
    by (simp add: map_nth)
  also have "\<dots> = map (\<lambda>k. bs ! k) (filter (\<lambda>k. bs ! k) [0..<length bs])"
    by (simp add: filter_map comp_def)
  finally show ?thesis
    by (simp add: np_count_def np_where_def)
qed

lemma np_mult_defined:
  "np_mult xs ys = Inr p \<Longrightarrow> length xs' = length xs \<Longrightarrow> length ys' = length ys \<Longrightarrow>
   \<exists>p'. np_mult xs' ys' = Inr p'"
  by (auto simp: np_mult_def split: if_splits)

lemma connected_nodes_InrD:
  "connected_nodes a = Inr xs \<Longrightarrow>
   \<exists>m srows mcols cH.
     kill_self_loops (cm a) = Inr m \<and> sensor_ixs a \<noteq> [] \<and> getrows m (sensor_ixs a) = Inr srows \<and>
     motor_ixs a \<noteq> [] \<and> getcols m (motor_ixs a) = Inr mcols \<and>
     densely_connected_nodes m False = Inr cH \<and>
     xs = sort (take_at (sensor_ixs a) (np_where (gt0 (sum_axis1 srows)))
                @ take_at (motor_ixs a) (np_where (gt0 (sum_axis0 mcols))) @ cH)"
  unfolding connected_nodes_def as_index_def
  by (simp split: sum.splits if_splits)

lemma getrows_same_shape:
  "getrows m ixs = Inr r \<Longrightarrow> map length m' = map length m \<Longrightarrow> \<exists>r'. getrows m' ixs = Inr r'"
  using same_shape_nrows[of m' m] by (auto simp: getrows_def split: if_splits)

lemma getcols_same_shape:
  "getcols m ixs = Inr r \<Longrightarrow> map length m' = map length m \<Longrightarrow> \<exists>r'. getcols m' ixs = Inr r'"
  using same_shape_ncols[of m' m] by (auto simp: getcols_def split: if_splits)

lemma copy_without_loops_shape:
  "copy_without_loops m b = Inr m' \<Longrightarrow> map length m' = map length m"
  by (auto simp: copy_without_loops_def dest: kill_self_loops_shape split: if_splits)

lemma kill_loop_defined:
  "kill_loop is m = Inr r \<Longrightarrow> map length m' = map length m \<Longrightarrow> \<exists>r'. kill_loop is m' = Inr r'"
proof (induction "is" arbitrary: m m' r)
  case Nil
  then show ?case by simp
next
  case (Cons i "is")
  from Cons.prems(1) obtain m1 where s: "setitem m i i 0 = Inr m1" and k: "kill_loop is m1 = Inr r"
    by (auto split: sum.splits)
  have "i < nrows m'" "i < ncols m'"
    using s same_shape_nrows[OF Cons.prems(2)] same_shape_ncols[OF Cons.prems(2)]
    by (auto simp: setitem_def split: if_splits)
  then obtain m1' where s': "setitem m' i i 0 = Inr m1'"
    by (auto simp: setitem_def)
  have "map length m1' = map length m1"
    using setitem_shape[OF s] setitem_shape[OF s'] Cons.prems(2) by simp
  from Cons.IH[OF k this] s' show ?case by auto
qed

lemma copy_without_loops_defined:
  "copy_without_loops m b = Inr r \<Longrightarrow> map length m' = map length m \<Longrightarrow>
   \<exists>r'. copy_without_loops m' b = Inr r'"
  using kill_loop_defined[of "[0..<length m]" m r m']
  by (auto simp: copy_without_loops_def kill_self_loops_def split: if_splits dest: arg_cong[where f=length])

lemma dense_same_shape:
  assumes "densely_connected_nodes m b = Inr cH" "map length m' = map length m"
  shows "\<exists>n. number_of_densely_connected_nodes m' b = Inr n"
proof -
  from assms(1) obtain m2 p where k2: "copy_without_loops m b = Inr m2"
    and p: "np_mult (sum_axis0 m2) (sum_axis1 m2) = Inr p"
    unfolding densely_connected_nodes_def by (simp split: sum.splits)
  obtain m2' where k2': "copy_without_loops m' b = Inr m2'"
    using copy_without_loops_defined[OF k2 assms(2)] by blast
  have sh: "map length m2' = map length m2"
    using copy_without_loops_shape[OF k2] copy_without_loops_shape[OF k2'] assms(2) by simp
  obtain p' where "np_mult (sum_axis0 m2') (sum_axis1 m2') = Inr p'"
    using np_mult_defined[OF p, of "sum_axis0 m2'" "sum_axis1 m2'"]
      same_shape_ncols[OF sh] same_shape_nrows[OF sh] by auto
  then show ?thesis
    by (simp add: number_of_densely_connected_nodes_def k2')
qed

lemma connected_nodes_imp_nodes_by_type:
  assumes "connected_nodes a = Inr xs"
  shows "\<exists>df. number_of_connected_nodes_by_type a = Inr df"
proof -
  from connected_nodes_InrD[OF assms] obtain m srows mcols cH where
    k: "kill_self_loops (cm a) = Inr m" and
    r: "getrows m (sensor_ixs a) = Inr srows" and
    c: "getcols m (motor_ixs a) = Inr mcols" and
    d: "densely_connected_nodes m False = Inr cH"
    by blast
  have sh: "map length (cm a) = map length m"
    using kill_self_loops_shape[OF k] by simp
  obtain r' where r': "getrows (cm a) (sensor_ixs a) = Inr r'"
    using getrows_same_shape[OF r sh] by auto
  obtain c' where c': "getcols (cm a) (motor_ixs a) = Inr c'"
    using getcols_same_shape[OF c sh] by auto
  obtain n where n: "number_of_densely_connected_nodes (cm a) False = Inr n"
    using dense_same_shape[OF d sh] by blast
  show ?thesis
    by (simp add: number_of_connected_nodes_by_type_def number_of_connected_sensors_def
        number_of_connected_motors_def r' c' n)
qed


lemma scc_empty: "len_LSCC [] = Inl ValueError"
  by (simp add: len_LSCC_def strongly_connected_components_def max_by_len_def)

lemma number_of_connections_Nil: "number_of_connections m [] [] = Inr 0"
  by (simp add: number_of_connections_def np_ix_def np_count_def gt0_def)

lemma connections_none:
  assumes "connected_nodes a = Inr []"
  shows "number_of_connections_by_type a True =
     Inr (DataFrame [(''s_m'', IntV 0), (''s_h'', IntV 0), (''h_h'', IntV 0), (''h_m'', IntV 0)] [1])"
  by (simp add: number_of_connections_by_type_def assms set_intersection_def
      number_of_connections_Nil)

lemma nodes_by_type_columns:
  "number_of_connected_nodes_by_type a = Inr df \<Longrightarrow>
   df_columns df = [''cN'', ''cS'', ''cH'', ''cM''] \<and> df_index df = [1] \<and> length (df_rows df) = 1"
  by (auto simp: number_of_connected_nodes_by_type_def DataFrame_def split: sum.splits)

lemma connections_by_type_columns:
  "number_of_connections_by_type a b = Inr df \<Longrightarrow>
   df_columns df = [''s_m'', ''s_h'', ''h_h'', ''h_m''] \<and> df_index df = [1] \<and> length (df_rows df) = 1"
  by (auto simp: number_of_connections_by_type_def DataFrame_def Let_def split: sum.splits)

lemma df_join_columns:
  "df_join d1 d2 = Inr d \<Longrightarrow> df_columns d = df_columns d1 @ df_columns d2"
  by (auto simp: df_join_def split: if_splits)

lemma fullStructuralAnalysis_columns:
  assumes "fullStructuralAnalysis bc g_agent get_graph a connected_only = Inr df"
  shows "df_columns df =
           [''cN'', ''cS'', ''cH'', ''cM'', ''s_m'', ''s_h'', ''h_h'', ''h_m'',
            ''len_LSCC'', ''len_LWCC'', ''flow_hierarchy'',
            ''av_betweenness_centrality'', ''av_degree_centrality'']"
  using assms unfolding fullStructuralAnalysis_def
  by (auto split: sum.splits simp: DataFrame_def
      dest!: nodes_by_type_columns connections_by_type_columns df_join_columns)

subsection \<open>Square matrices: entries, sums and the connected nodes\<close>

lemma squareD: "square m \<Longrightarrow> a < length m \<Longrightarrow> length (m ! a) = length m"
  by (simp add: square_def list_all_length)

lemma square_ncols: "square m \<Longrightarrow> ncols m = length m"
  by (cases m) (auto simp: ncols_def square_def)

lemma square_same_shape: "map length m' = map length m \<Longrightarrow> square m \<Longrightarrow> square m'"
proof -
  assume sh: "map length m' = map length m" and sq: "square m"
  have len: "length m' = length m"
    using sh by (metis length_map)
  have "length (m' ! a) = length m'" if "a < length m'" for a
  proof -
    have "length (m' ! a) = map length m' ! a"
      using that by simp
    also have "\<dots> = length (m ! a)"
      using that len sh by simp
    finally show ?thesis
      using squareD[OF sq, of a] that len by simp
  qed
  then show ?thesis
    by (simp add: square_def list_all_length)
qed

lemma nonneg_nth: "nonneg m \<longleftrightarrow> (\<forall>a < length m. \<forall>b < length (m ! a). 0 \<le> m ! a ! b)"
  by (simp add: nonneg_def list_all_length)

lemma kill_loop_entry:
  "kill_loop is m = Inr m' \<Longrightarrow> a < length m \<Longrightarrow> b < length (m ! a) \<Longrightarrow>
   m' ! a ! b = (if a = b \<and> a \<in> set is then 0 else m ! a ! b)"
proof (induction "is" arbitrary: m)
  case Nil
  then show ?case by simp
next
  case (Cons i "is")
  from Cons.prems(1) obtain m1 where s: "setitem m i i 0 = Inr m1" and k: "kill_loop is m1 = Inr m'"
    by (auto split: sum.splits)
  from s have m1: "m1 = m[i := (m ! i)[i := 0]]" and i: "i < length m"
    by (auto simp: setitem_def nrows_def split: if_splits)
  have a1: "a < length m1"
    using Cons.prems(2) by (simp add: m1)
  have b1: "b < length (m1 ! a)"
    using Cons.prems(2,3) i by (cases "a = i") (auto simp: m1)
  have e: "m1 ! a ! b = (if a = i \<and> b = i then 0 else m ! a ! b)"
    using Cons.prems(2,3) i by (cases "a = i"; cases "b = i") (auto simp: m1)
  show ?case
    using Cons.IH[OF k a1 b1] e by auto
qed

lemma kill_self_loops_entry:
  "kill_self_loops m = Inr m' \<Longrightarrow> a < length m \<Longrightarrow> b < length (m ! a) \<Longrightarrow>
   m' ! a ! b = (if a = b then 0 else m ! a ! b)"
  unfolding kill_self_loops_def by (drule kill_loop_entry) auto

lemma kill_loop_total:
  "\<forall>i \<in> set is. i < nrows m \<and> i < ncols m \<Longrightarrow> \<exists>m'. kill_loop is m = Inr m'"
proof (induction "is" arbitrary: m)
  case Nil
  then show ?case by simp
next
  case (Cons i "is")
  then obtain m1 where s: "setitem m i i 0 = Inr m1"
    by (auto simp: setitem_def)
  have "\<forall>i \<in> set is. i < nrows m1 \<and> i < ncols m1"
    using Cons.prems same_shape_nrows[OF setitem_shape[OF s]] same_shape_ncols[OF setitem_shape[OF s]]
    by simp
  from Cons.IH[OF this] s show ?case by auto
qed

lemma square_kill_self_loops: "square m \<Longrightarrow> \<exists>m'. kill_self_loops m = Inr m'"
  unfolding kill_self_loops_def
  by (rule kill_loop_total) (simp add: square_ncols nrows_def)

lemma take_at_where:
  assumes "length bs = length S" "\<And>k. k < length S \<Longrightarrow> bs ! k = P (S ! k)"
  shows "take_at S (np_where bs) = filter P S"
proof -
  have "filter (\<lambda>k. bs ! k) [0..<length S] = filter (\<lambda>k. P (S ! k)) [0..<length S]"
    by (rule filter_cong) (auto simp: assms(2))
  then have "take_at S (np_where bs) = map (\<lambda>k. S ! k) (filter (P \<circ> (\<lambda>k. S ! k)) [0..<length S])"
    by (simp add: take_at_def np_where_def assms(1) comp_def)
  also have "\<dots> = filter P (map (\<lambda>k. S ! k) [0..<length S])"
    by (simp add: filter_map)
  also have "\<dots> = filter P S"
    by (simp add: map_nth)
  finally show ?thesis .
qed

lemma set_np_where: "set (np_where bs) = {k. k < length bs \<and> bs ! k}"
  by (auto simp: np_where_def)


lemma sum_axis0_nth: "k < ncols m \<Longrightarrow> sum_axis0 m ! k = csum m k"
  by (simp add: sum_axis0_def csum_def colsum_def)

lemma sum_axis1_nth: "k < length m \<Longrightarrow> sum_axis1 m ! k = rsum m k"
  by (simp add: sum_axis1_def rsum_def)

lemma np_mult_square:
  assumes "square m"
  shows "np_mult (sum_axis0 m) (sum_axis1 m) =
           Inr (map (\<lambda>k. wrap64 (csum m k * rsum m k)) [0..<length m])"
proof -
  have n: "ncols m = length m"
    by (rule square_ncols[OF assms])
  have "map (\<lambda>(x, y). wrap64 (x * y)) (zip (sum_axis0 m) (sum_axis1 m)) =
        map (\<lambda>k. wrap64 (csum m k * rsum m k)) [0..<length m]"
    by (rule nth_equalityI) (simp_all add: n nrows_def sum_axis0_nth sum_axis1_nth)
  then show ?thesis
    by (simp add: np_mult_def n nrows_def)
qed

lemma where_gt0_map: "np_where (gt0 (map f [0..<n])) = filter (\<lambda>k. 0 < f k) [0..<n]"
  unfolding np_where_def gt0_def by (rule filter_cong) auto

lemma copy_without_loops_square:
  "square m \<Longrightarrow> copy_without_loops m b = Inr m2 \<Longrightarrow> square m2 \<and> length m2 = length m"
  using square_same_shape[OF copy_without_loops_shape, of m b m2]
    same_shape_nrows[OF copy_without_loops_shape, of m b m2]
  by (simp add: nrows_def)

lemma densely_connected_nodes_square:
  assumes "square m" "copy_without_loops m b = Inr m2"
  shows "densely_connected_nodes m b =
           Inr (filter (dense m2) [0..<length m])"
  using copy_without_loops_square[OF assms] assms(2)
  by (simp add: densely_connected_nodes_def np_mult_square where_gt0_map dense_def [abs_def])

lemma number_of_densely_connected_nodes_square:
  assumes "square m" "copy_without_loops m b = Inr m2"
  shows "number_of_densely_connected_nodes m b =
           Inr (length (filter (dense m2) [0..<length m]))"
  using copy_without_loops_square[OF assms] assms(2)
  by (simp add: number_of_densely_connected_nodes_def np_mult_square np_count_where where_gt0_map
      dense_def [abs_def])

lemma getrows_filter:
  assumes "getrows m S = Inr srows"
  shows "take_at S (np_where (gt0 (sum_axis1 srows))) = filter (\<lambda>s. 0 < rsum m s) S"
proof -
  from assms have srows: "srows = map (\<lambda>i. m ! i) S"
    by (auto simp: getrows_def split: if_splits)
  show ?thesis
    by (rule take_at_where) (simp_all add: srows gt0_def sum_axis1_def rsum_def)
qed

lemma getcols_filter:
  assumes "getcols m M = Inr mcols" "M \<noteq> []"
  shows "take_at M (np_where (gt0 (sum_axis0 mcols))) = filter (\<lambda>t. 0 < csum m t) M"
proof -
  from assms(1) have mcols: "mcols = map (\<lambda>r. map (\<lambda>j. r ! j) M) m" and r: "\<forall>j \<in> set M. j < ncols m"
    by (auto simp: getcols_def split: if_splits)
  from r assms(2) have "m \<noteq> []"
    by (cases M) (auto simp: ncols_def)
  then have nc: "ncols mcols = length M"
    by (cases m) (auto simp: mcols ncols_def)
  show ?thesis
  proof (rule take_at_where)
    show "length (gt0 (sum_axis0 mcols)) = length M"
      by (simp add: gt0_def nc)
    fix k assume k: "k < length M"
    have "sum_axis0 mcols ! k = wrap64 (sum_list (map (\<lambda>r. r ! k) mcols))"
      using k by (simp add: sum_axis0_def nc)
    also have "\<dots> = csum m (M ! k)"
      using k by (simp add: mcols csum_def colsum_def comp_def)
    finally show "gt0 (sum_axis0 mcols) ! k = (0 < csum m (M ! k))"
      using k by (simp add: gt0_def nc)
  qed
qed


lemma kill_self_loops_square:
  "square m \<Longrightarrow> kill_self_loops m = Inr m1 \<Longrightarrow> square m1 \<and> length m1 = length m"
  using copy_without_loops_square[of m False m1] by (simp add: copy_without_loops_def)

lemma connected_nodes_squareD:
  assumes "square (cm a)" "connected_nodes a = Inr xs"
  shows "\<exists>m1 m2. kill_self_loops (cm a) = Inr m1 \<and> kill_self_loops m1 = Inr m2
           \<and> xs = connected_list m1 m2 (sensor_ixs a) (motor_ixs a)
           \<and> sensor_ixs a \<noteq> [] \<and> motor_ixs a \<noteq> []
           \<and> (\<forall>s \<in> set (sensor_ixs a). s < length (cm a))
           \<and> (\<forall>t \<in> set (motor_ixs a). t < length (cm a))"
proof -
  from connected_nodes_InrD[OF assms(2)] obtain m1 srows mcols cH where
    k: "kill_self_loops (cm a) = Inr m1" and
    S: "sensor_ixs a \<noteq> []" and r: "getrows m1 (sensor_ixs a) = Inr srows" and
    M: "motor_ixs a \<noteq> []" and c: "getcols m1 (motor_ixs a) = Inr mcols" and
    d: "densely_connected_nodes m1 False = Inr cH" and
    xs: "xs = sort (take_at (sensor_ixs a) (np_where (gt0 (sum_axis1 srows)))
                @ take_at (motor_ixs a) (np_where (gt0 (sum_axis0 mcols))) @ cH)"
    by blast
  have sq1: "square m1" and l1: "length m1 = length (cm a)"
    using kill_self_loops_square[OF assms(1) k] by simp_all
  obtain m2 where k2: "kill_self_loops m1 = Inr m2"
    using square_kill_self_loops[OF sq1] by blast
  have cH: "cH = filter (dense m2) [0..<length m1]"
    using densely_connected_nodes_square[OF sq1, of False m2] k2 d
    by (simp add: copy_without_loops_def)
  have rs: "\<forall>s \<in> set (sensor_ixs a). s < length (cm a)"
    using r l1 by (auto simp: getrows_def nrows_def split: if_splits)
  have cs: "\<forall>t \<in> set (motor_ixs a). t < length (cm a)"
    using c l1 square_ncols[OF sq1] by (auto simp: getcols_def split: if_splits)
  show ?thesis
    using k k2 S M rs cs
    by (simp add: xs connected_list_def getrows_filter[OF r] getcols_filter[OF c M] cH)
qed

lemma connected_nodes_squareI:
  assumes "square (cm a)" "kill_self_loops (cm a) = Inr m1" "kill_self_loops m1 = Inr m2"
    "sensor_ixs a \<noteq> []" "motor_ixs a \<noteq> []"
    "\<forall>s \<in> set (sensor_ixs a). s < length (cm a)"
    "\<forall>t \<in> set (motor_ixs a). t < length (cm a)"
  shows "connected_nodes a = Inr (connected_list m1 m2 (sensor_ixs a) (motor_ixs a))"
proof -
  have sq1: "square m1" and l1: "length m1 = length (cm a)"
    using kill_self_loops_square[OF assms(1,2)] by simp_all
  obtain srows where r: "getrows m1 (sensor_ixs a) = Inr srows"
    using assms(6) l1 by (simp add: getrows_def nrows_def)
  obtain mcols where c: "getcols m1 (motor_ixs a) = Inr mcols"
    using assms(7) l1 square_ncols[OF sq1] by (simp add: getcols_def)
  have d: "densely_connected_nodes m1 False =
             Inr (filter (dense m2) [0..<length m1])"
    using densely_connected_nodes_square[OF sq1, of False m2] assms(3)
    by (simp add: copy_without_loops_def)
  show ?thesis
    by (simp add: connected_nodes_def assms(2,4,5) as_index_def r c d connected_list_def
        getrows_filter[OF r] getcols_filter[OF c assms(5)])
qed

lemma mat_le_lengths:
  "mat_le m n \<Longrightarrow> length n = length m \<and> (\<forall>a < length m. length (n ! a) = length (m ! a))"
proof -
  assume h: "mat_le m n"
  then have sh: "map length m = map length n"
    by (simp add: mat_le_def)
  then have len: "length n = length m"
    by (metis length_map)
  have "length (n ! a) = length (m ! a)" if "a < length m" for a
    using that len nth_map[of a m length] nth_map[of a n length] sh by simp
  with len show ?thesis by simp
qed

lemma mat_le_rowsum:
  assumes "mat_le m n" "a < length m"
  shows "sum_list (m ! a) \<le> sum_list (n ! a)"
proof (rule sum_list_mono2)
  show "length (m ! a) = length (n ! a)"
    using mat_le_lengths[OF assms(1)] assms(2) by simp
  show "i < length (m ! a) \<longrightarrow> m ! a ! i \<le> n ! a ! i" for i
    using assms by (simp add: mat_le_def)
qed

lemma mat_le_colsum:
  assumes "mat_le m n" "\<forall>a < length m. j < length (m ! a)"
  shows "colsum m j \<le> colsum n j"
  unfolding colsum_def
proof (rule sum_list_mono2)
  show "length (map (\<lambda>r. r ! j) m) = length (map (\<lambda>r. r ! j) n)"
    using mat_le_lengths[OF assms(1)] by simp
  show "i < length (map (\<lambda>r. r ! j) m) \<longrightarrow> map (\<lambda>r. r ! j) m ! i \<le> map (\<lambda>r. r ! j) n ! i" for i
    using assms mat_le_lengths[OF assms(1)] by (simp add: mat_le_def)
qed

lemma nonneg_rowsum: "nonneg m \<Longrightarrow> a < length m \<Longrightarrow> 0 \<le> sum_list (m ! a)"
  by (rule sum_list_nonneg) (auto simp: nonneg_def list_all_iff)

lemma nonneg_colsum:
  assumes "nonneg m" "\<forall>a < length m. j < length (m ! a)"
  shows "0 \<le> colsum m j"
  unfolding colsum_def
proof (rule sum_list_nonneg)
  fix x assume "x \<in> set (map (\<lambda>r. r ! j) m)"
  then obtain a where "a < length m" "x = m ! a ! j"
    by (auto simp: in_set_conv_nth)
  with assms show "0 \<le> x"
    by (simp add: nonneg_nth)
qed

lemma mat_le_kill:
  assumes "mat_le m n" "kill_self_loops m = Inr m1" "kill_self_loops n = Inr n1"
  shows "mat_le m1 n1"
proof -
  note l = mat_le_lengths[OF assms(1)]
  have sh: "map length m1 = map length n1"
    using kill_self_loops_shape[OF assms(2)] kill_self_loops_shape[OF assms(3)] assms(1)
    by (simp add: mat_le_def)
  have lm: "length m1 = length m" "\<forall>a < length m. length (m1 ! a) = length (m ! a)"
    using kill_self_loops_shape[OF assms(2)]
    by (metis length_map, metis length_map nth_map)
  have "m1 ! a ! b \<le> n1 ! a ! b" if "a < length m1" "b < length (m1 ! a)" for a b
  proof -
    have a: "a < length m" and b: "b < length (m ! a)"
      using that lm by simp_all
    have a': "a < length n" and b': "b < length (n ! a)"
      using a b l by simp_all
    show ?thesis
      using kill_self_loops_entry[OF assms(2) a b] kill_self_loops_entry[OF assms(3) a' b']
        assms(1) a b by (simp add: mat_le_def)
  qed
  with sh show ?thesis
    by (simp add: mat_le_def)
qed

lemma nonneg_kill:
  assumes "nonneg m" "kill_self_loops m = Inr m1"
  shows "nonneg m1"
proof -
  have lm: "length m1 = length m" "\<forall>a < length m. length (m1 ! a) = length (m ! a)"
    using kill_self_loops_shape[OF assms(2)]
    by (metis length_map, metis length_map nth_map)
  have "0 \<le> m1 ! a ! b" if "a < length m1" "b < length (m1 ! a)" for a b
  proof -
    have a: "a < length m" and b: "b < length (m ! a)"
      using that lm by simp_all
    show ?thesis
      using kill_self_loops_entry[OF assms(2) a b] assms(1) a b by (simp add: nonneg_nth)
  qed
  then show ?thesis
    by (simp add: nonneg_nth)
qed

lemma mat_le_update:
  assumes "m ! i ! j \<le> w"
  shows "mat_le m (m[i := (m ! i)[j := w]])"
proof -
  have "map length (m[i := (m ! i)[j := w]]) = map length m"
    by (cases "i < length m") (simp_all add: map_update list_update_same_conv list_update_beyond)
  then have sh: "map length m = map length (m[i := (m ! i)[j := w]])"
    by simp
  have "m ! a ! b \<le> m[i := (m ! i)[j := w]] ! a ! b" if "a < length m" "b < length (m ! a)" for a b
    using that assms by (cases "a = i"; cases "b = j") auto
  with sh show ?thesis
    by (simp add: mat_le_def)
qed


subsection \<open>The concrete scenario\<close>

lemma chain_nodes_by_type:
  "number_of_connected_nodes_by_type chain_agent =
     Inr (DataFrame [(''cN'', IntV 4), (''cS'', IntV 1), (''cH'', IntV 2), (''cM'', IntV 1)] [1])"
  by code_simp

lemma chain_connections_by_type:
  "number_of_connections_by_type chain_agent True =
     Inr (DataFrame [(''s_m'', IntV 0), (''s_h'', IntV 1), (''h_h'', IntV 2), (''h_m'', IntV 1)] [1])"
  by code_simp

lemma chain_connected_nodes: "connected_nodes chain_agent = Inr [0, 1, 2, 3]"
  by code_simp

lemma chain_induced_graph: "induced_graph chain_agent = Inr (cm chain_agent)"
  by code_simp

lemma chain_adjacency: "adjacency_matrix (cm chain_agent) = Inr (cm chain_agent)"
  by code_simp

lemma chain_len_LSCC: "len_LSCC (cm chain_agent) = Inr 2"
  by code_simp

lemma chain_len_LWCC: "len_LWCC (cm chain_agent) = Inr 4"
  by code_simp

lemma chain_flow_hierarchy: "flow_hierarchy (cm chain_agent) = Inr (Fin (1 / 2))"
  by code_simp

lemma chain_dense: "number_of_densely_connected_nodes (cm chain_agent) False = Inr 2"
  by code_simp

lemma chain_degree: "average_degree_centrality (cm chain_agent) = Inr (Fin (2 / 3))"
  by code_simp

lemma chain_betweenness:
  "average_betweenness_centrality bc g_agent (cm chain_agent) True =
     Inr (Fin (sum_list (bc (cm chain_agent)) / 2))"
  by (simp add: average_betweenness_centrality_def chain_adjacency chain_dense np_true_divide_def)

lemma chain_join:
  "df_join
     (DataFrame [(''cN'', IntV 4), (''cS'', IntV 1), (''cH'', IntV 2), (''cM'', IntV 1)] [1])
     (DataFrame [(''s_m'', IntV 0), (''s_h'', IntV 1), (''h_h'', IntV 2), (''h_m'', IntV 1)] [1]) =
   Inr (DataFrame
          [(''cN'', IntV 4), (''cS'', IntV 1), (''cH'', IntV 2), (''cM'', IntV 1),
           (''s_m'', IntV 0), (''s_h'', IntV 1), (''h_h'', IntV 2), (''h_m'', IntV 1)] [1])"
  by code_simp

lemma chain_report_join:
  "fullStructuralAnalysis bc g_agent get_graph chain_agent True =
     df_join
       (DataFrame
          [(''cN'', IntV 4), (''cS'', IntV 1), (''cH'', IntV 2), (''cM'', IntV 1),
           (''s_m'', IntV 0), (''s_h'', IntV 1), (''h_h'', IntV 2), (''h_m'', IntV 1)] [1])
       (DataFrame
          [(''len_LSCC'', IntV (int 2)),
           (''len_LWCC'', IntV (int 4)),
           (''flow_hierarchy'', FloatV (Fin (1 / 2))),
           (''av_betweenness_centrality'', FloatV (Fin (sum_list (bc (cm chain_agent)) / 2))),
           (''av_degree_centrality'', FloatV (Fin (2 / 3)))] [1])"
  by (simp only: fullStructuralAnalysis_def chain_nodes_by_type chain_connections_by_type
      chain_induced_graph chain_len_LSCC chain_len_LWCC
      chain_flow_hierarchy chain_betweenness chain_degree chain_join sum.case if_True)

text \<open>
  C2. For the agent with sensor 0, hidden nodes 1 and 2, motor 3 and the weight-1 edges
  0\<rightarrow>1, 1\<rightarrow>2, 2\<rightarrow>1, 2\<rightarrow>3, the full analysis returns one row with cN = 4, cS = 1, cH = 2,
  cM = 1, s_m = 0, s_h = 1, h_h = 2, h_m = 1, a largest strongly connected component of
  size 2 and a largest weakly connected component of size 4; the largest strongly
  connected component of its graph is {1, 2}. This holds whatever the betweenness
  centralities, the module's global \<^verbatim>\<open>agent\<close> and \<^verbatim>\<open>get_graph\<close> are.
\<close>

theorem fullStructuralAnalysis_chain_agent:
  "fullStructuralAnalysis bc g_agent get_graph chain_agent True =
     Inr \<lparr>df_columns =
            [''cN'', ''cS'', ''cH'', ''cM'', ''s_m'', ''s_h'', ''h_h'', ''h_m'',
             ''len_LSCC'', ''len_LWCC'', ''flow_hierarchy'',
             ''av_betweenness_centrality'', ''av_degree_centrality''],
          df_index = [1],
          df_rows =
            [[IntV 4, IntV 1, IntV 2, IntV 1, IntV 0, IntV 1, IntV 2, IntV 1, IntV 2, IntV 4,
              FloatV (Fin (1 / 2)),
              FloatV (Fin (sum_list (bc (cm chain_agent)) / 2)),
              FloatV (Fin (2 / 3))]]\<rparr>
   \<and> LSCC (cm chain_agent) = Inr (Some [1, 2])"
proof -
  have "LSCC (cm chain_agent) = Inr (Some [1, 2])"
    by code_simp
  then show ?thesis
    by (simp add: chain_report_join df_join_def DataFrame_def)
qed

subsection \<open>Counts against index sequences\<close>

text \<open>
  What does hold between the count and the index sequence of the densely connected nodes:
  the two functions differ in their last step only.
\<close>

lemma number_of_densely_connected_nodes_length:
  "densely_connected_nodes m b = Inr xs \<Longrightarrow>
   number_of_densely_connected_nodes m b = Inr (length xs)"
  by (auto simp: densely_connected_nodes_def number_of_densely_connected_nodes_def
      np_count_where split: sum.splits)

lemma connected_nodes_sorted: "connected_nodes a = Inr xs \<Longrightarrow> sorted xs"
  by (drule connected_nodes_InrD) auto

text \<open>
  Without self-loops the count and the sequence agree: if the diagonal of a square matrix
  is zero and \<^verbatim>\<open>connected_nodes\<close> returns, cN is the length of what it returns.
\<close>

lemma kill_self_loops_id:
  assumes "square m" "\<forall>k < length m. m ! k ! k = 0"
  shows "kill_self_loops m = Inr m"
proof -
  obtain m' where k: "kill_self_loops m = Inr m'"
    using square_kill_self_loops[OF assms(1)] by blast
  have sh: "map length m' = map length m"
    by (rule kill_self_loops_shape[OF k])
  have len: "length m' = length m"
    using sh by (metis length_map)
  have "m' ! a = m ! a" if a: "a < length m" for a
  proof (rule nth_equalityI)
    show l: "length (m' ! a) = length (m ! a)"
      using sh a len by (metis nth_map)
    fix b assume "b < length (m' ! a)"
    then have "b < length (m ! a)"
      using l by simp
    from kill_self_loops_entry[OF k a this] assms(2) a show "m' ! a ! b = m ! a ! b"
      by auto
  qed
  then have "m' = m"
    using len by (simp add: nth_equalityI)
  with k show ?thesis by simp
qed

lemma length_take_at: "length (take_at S ks) = length ks"
  by (simp add: take_at_def)

lemma cN_is_length_without_self_loops:
  assumes sq: "square (cm a)" and nl: "\<forall>k < length (cm a). cm a ! k ! k = 0"
    and xs: "connected_nodes a = Inr xs"
  shows "\<exists>cS cH cM.
           number_of_connected_nodes_by_type a =
             Inr (DataFrame [(''cN'', IntV (int (length xs))), (''cS'', IntV (int cS)),
                             (''cH'', IntV (int cH)), (''cM'', IntV (int cM))] [1])"
proof -
  have k: "kill_self_loops (cm a) = Inr (cm a)"
    by (rule kill_self_loops_id[OF sq nl])
  from connected_nodes_squareD[OF sq xs] k
  have xs_eq: "xs = connected_list (cm a) (cm a) (sensor_ixs a) (motor_ixs a)"
    and M: "motor_ixs a \<noteq> []"
    and rs: "\<forall>s \<in> set (sensor_ixs a). s < length (cm a)"
    and rm: "\<forall>t \<in> set (motor_ixs a). t < length (cm a)"
    by auto
  obtain srows where r: "getrows (cm a) (sensor_ixs a) = Inr srows"
    using rs by (simp add: getrows_def nrows_def)
  obtain mcols where c: "getcols (cm a) (motor_ixs a) = Inr mcols"
    using rm square_ncols[OF sq] by (simp add: getcols_def)
  have cS: "number_of_connected_sensors (cm a) (sensor_ixs a) =
              Inr (length (filter (\<lambda>s. 0 < rsum (cm a) s) (sensor_ixs a)))"
    using getrows_filter[OF r] length_take_at[of "sensor_ixs a" "np_where (gt0 (sum_axis1 srows))"]
    by (simp add: number_of_connected_sensors_def r np_count_where)
  have cM: "number_of_connected_motors (cm a) (motor_ixs a) =
              Inr (length (filter (\<lambda>t. 0 < csum (cm a) t) (motor_ixs a)))"
    using getcols_filter[OF c M] length_take_at[of "motor_ixs a" "np_where (gt0 (sum_axis0 mcols))"]
    by (simp add: number_of_connected_motors_def c np_count_where)
  have cH: "number_of_densely_connected_nodes (cm a) False =
              Inr (length (filter (dense (cm a))
                             [0..<length (cm a)]))"
    using number_of_densely_connected_nodes_square[OF sq, of False "cm a"] k
    by (simp add: copy_without_loops_def)
  have "number_of_connected_nodes_by_type a =
          Inr (DataFrame
                 [(''cN'', IntV (int (length xs))),
                  (''cS'', IntV (int (length (filter (\<lambda>s. 0 < rsum (cm a) s)
                                                 (sensor_ixs a))))),
                  (''cH'', IntV (int (length (filter (dense (cm a))
                                                 [0..<length (cm a)])))),
                  (''cM'', IntV (int (length (filter (\<lambda>t. 0 < csum (cm a) t)
                                                 (motor_ixs a)))))] [1])"
    by (simp add: number_of_connected_nodes_by_type_def cS cM cH xs_eq connected_list_def
        DataFrame_def)
  then show ?thesis
    by blast
qed

text \<open>
  C1. The claim is that cN equals the length of \<^verbatim>\<open>connected_nodes(agent)\<close>. For the agent
  whose sensor 0 has a self-loop and no other edge, the count keeps the self-loop
  (cS = 1, cN = 1) while \<^verbatim>\<open>connected_nodes\<close>, which clears the diagonal before it tests the
  sensors and motors, returns the empty sequence.
\<close>

theorem cN_differs_from_length_connected_nodes:
  "number_of_connected_nodes_by_type self_loop_agent =
     Inr (DataFrame [(''cN'', IntV 1), (''cS'', IntV 1), (''cH'', IntV 0), (''cM'', IntV 0)] [1])
   \<and> connected_nodes self_loop_agent = Inr []"
  by code_simp

text \<open>
  C3. The claim is that only indices of the hidden group contribute to cH. In the agent
  with the edges 0\<rightarrow>1, 1\<rightarrow>0, 1\<rightarrow>2 the hidden group is {1}, and cH is 2: the count ranges
  over every node of the matrix, and sensor 0 has an incoming and an outgoing edge.
\<close>

theorem cH_counts_nodes_outside_hidden_group:
  "hidden_ixs feedback_agent = [1]
   \<and> number_of_connected_nodes_by_type feedback_agent =
       Inr (DataFrame [(''cN'', IntV 4), (''cS'', IntV 1), (''cH'', IntV 2), (''cM'', IntV 1)] [1])"
  by code_simp

text \<open>
  C4. The claim is that \<^verbatim>\<open>connected_nodes\<close> returns an ascending sequence without
  duplicates. For the same agent sensor 0 is listed as a connected sensor and again as a
  densely connected node: the result is 0, 0, 1, 2.
\<close>

theorem connected_nodes_repeats_indices:
  "connected_nodes feedback_agent = Inr [0, 0, 1, 2]
   \<and> \<not> distinct [0, 0, 1, 2 :: nat]"
  by code_simp

subsection \<open>The report's schema and its failures\<close>

text \<open>
  C9. \<^verbatim>\<open>emptyStructuralAnalysis(3)\<close> is a frame of three rows, labelled 0, 1, 2, with the
  thirteen columns cN, cS, cH, cM, s_m, s_h, h_h, h_m, len_LSCC, len_LWCC, flow_hierarchy,
  av_betweenness_centrality, av_degree_centrality in this order and \<open>nan\<close> in every cell;
  every frame that \<^verbatim>\<open>fullStructuralAnalysis\<close> returns has the same columns in the same order.
\<close>

theorem emptyStructuralAnalysis_schema:
  "emptyStructuralAnalysis 3 =
     \<lparr>df_columns =
        [''cN'', ''cS'', ''cH'', ''cM'', ''s_m'', ''s_h'', ''h_h'', ''h_m'',
         ''len_LSCC'', ''len_LWCC'', ''flow_hierarchy'',
         ''av_betweenness_centrality'', ''av_degree_centrality''],
      df_index = [0, 1, 2],
      df_rows = replicate 3 (replicate 13 (FloatV NaN))\<rparr>
   \<and> (\<forall>bc g_agent get_graph a connected_only df.
        fullStructuralAnalysis bc g_agent get_graph a connected_only = Inr df \<longrightarrow>
        df_columns df = df_columns (emptyStructuralAnalysis 3))"
proof -
  have "emptyStructuralAnalysis 3 =
     \<lparr>df_columns =
        [''cN'', ''cS'', ''cH'', ''cM'', ''s_m'', ''s_h'', ''h_h'', ''h_m'',
         ''len_LSCC'', ''len_LWCC'', ''flow_hierarchy'',
         ''av_betweenness_centrality'', ''av_degree_centrality''],
      df_index = [0, 1, 2],
      df_rows = replicate 3 (replicate 13 (FloatV NaN))\<rparr>"
    by code_simp
  moreover have "df_columns (emptyStructuralAnalysis n) = [''cN'', ''cS'', ''cH'', ''cM'', ''s_m'', ''s_h'', ''h_h'', ''h_m'',
         ''len_LSCC'', ''len_LWCC'', ''flow_hierarchy'',
         ''av_betweenness_centrality'', ''av_degree_centrality'']" for n 
    by (simp add: emptyStructuralAnalysis_def)
  ultimately show ?thesis
    using fullStructuralAnalysis_columns by simp
qed

theorem emptyStructuralAnalysis_schema_witness:
  "\<exists>df. fullStructuralAnalysis (\<lambda>G. []) None (\<lambda>a. Inl NameError) chain_agent True = Inr df
      \<and> df_columns df = df_columns (emptyStructuralAnalysis 3)"
proof -
  obtain df where df: "fullStructuralAnalysis (\<lambda>G. []) None (\<lambda>a. Inl NameError) chain_agent True = Inr df"
    by (simp add: chain_report_join df_join_def DataFrame_def)
  with emptyStructuralAnalysis_schema show ?thesis by blast
qed

text \<open>
  C10. When \<^verbatim>\<open>connected_nodes(agent)\<close> is empty, \<^verbatim>\<open>fullStructuralAnalysis(agent, True)\<close> returns
  no report, and the error is an \<^verbatim>\<open>IndexError\<close>: the two count frames are computed and
  joined, then \<^verbatim>\<open>agent.cm[np.ix_(ind_con, ind_con)]\<close> is indexed with the empty float64 array
  that \<^verbatim>\<open>connected_nodes\<close> returned, and numpy refuses it. No graph is built, and neither
  \<^verbatim>\<open>len_LSCC\<close> nor \<^verbatim>\<open>len_LWCC\<close> is reached.
\<close>

theorem fullStructuralAnalysis_no_connected_nodes_IndexError:
  assumes "connected_nodes a = Inr []"
  shows "induced_graph a = Inl IndexError
       \<and> fullStructuralAnalysis bc g_agent get_graph a True = Inl IndexError"
proof -
  obtain df0 where d0: "number_of_connected_nodes_by_type a = Inr df0"
    using connected_nodes_imp_nodes_by_type[OF assms] by blast
  have cols: "df_columns df0 = [''cN'', ''cS'', ''cH'', ''cM'']"
    using nodes_by_type_columns[OF d0] by simp
  obtain df1 where j: "df_join df0 (DataFrame [(''s_m'', IntV 0), (''s_h'', IntV 0), (''h_h'', IntV 0), (''h_m'', IntV 0)] [1]) = Inr df1"
    by (simp add: df_join_def DataFrame_def cols)
  have g: "induced_graph a = Inl IndexError"
    by (simp add: induced_graph_def assms as_index_def)
  have "fullStructuralAnalysis bc g_agent get_graph a True = Inl IndexError"
    by (simp only: fullStructuralAnalysis_def d0 connections_none[OF assms] j g
        sum.case if_True)
  with g show ?thesis
    by simp
qed

theorem fullStructuralAnalysis_no_connected_nodes_IndexError_witness:
  "connected_nodes silent_agent = Inr []
   \<and> induced_graph silent_agent = Inl IndexError
   \<and> fullStructuralAnalysis (\<lambda>G. []) None (\<lambda>a. Inl NameError) silent_agent True = Inl IndexError"
proof -
  have c: "connected_nodes silent_agent = Inr []"
    by code_simp
  from fullStructuralAnalysis_no_connected_nodes_IndexError[OF c] c show ?thesis
    by simp
qed

text \<open>
  The failure does not come from the largest-component computations. On a graph without
  nodes \<^verbatim>\<open>len_LSCC\<close> and \<^verbatim>\<open>len_LWCC\<close> would raise \<^verbatim>\<open>ValueError\<close>, from \<^verbatim>\<open>max\<close> of an empty
  sequence; the agent without edges never gets that far, since no graph, empty or not,
  comes out of the indexing.
\<close>

theorem no_connected_nodes_fails_before_any_graph:
  "connected_nodes silent_agent = Inr []
   \<and> len_LSCC [] = Inl ValueError
   \<and> len_LWCC [] = Inl ValueError
   \<and> induced_graph silent_agent = Inl IndexError
   \<and> fullStructuralAnalysis (\<lambda>G. []) None (\<lambda>a. Inl NameError) silent_agent True
       \<noteq> Inl ValueError"
  by code_simp

text \<open>
  C5. The claim is that with \<^verbatim>\<open>connected_only = False\<close> the sum of the centralities is
  divided by the agent's number of hidden nodes. The function has no parameter \<^verbatim>\<open>agent\<close>
  and the module binds no such global, so this branch raises \<^verbatim>\<open>NameError\<close> for every
  graph.
\<close>

theorem average_betweenness_centrality_unbound_agent:
  "average_betweenness_centrality bc None G False = Inl NameError"
  by (simp add: average_betweenness_centrality_def)

text \<open>
  Where a division by zero does show: a graph without edges makes \<^verbatim>\<open>flow_hierarchy\<close> raise
  \<^verbatim>\<open>ZeroDivisionError\<close>, and then \<^verbatim>\<open>fullStructuralAnalysis\<close> returns no report. When the
  graph has a node and the count of its densely connected nodes is zero,
  \<^verbatim>\<open>average_betweenness_centrality(G, True)\<close> returns \<open>nan\<close> if the centralities sum to zero
  and an infinity otherwise; on a graph without nodes \<^verbatim>\<open>nx.adjacency_matrix\<close> raises.
\<close>

lemma flow_hierarchy_no_edges: "graph_size G = 0 \<Longrightarrow> flow_hierarchy G = Inl ZeroDivisionError"
  by (simp add: flow_hierarchy_def)

lemma report_needs_edges:
  assumes "(if connected_only then induced_graph a else get_graph a) = Inr G"
    and "graph_size G = 0"
  shows "\<exists>e. fullStructuralAnalysis bc g_agent get_graph a connected_only = Inl e"
proof (cases connected_only)
  case True
  with assms show ?thesis
    by (simp add: fullStructuralAnalysis_def flow_hierarchy_no_edges split: sum.splits)
next
  case False
  with assms show ?thesis
    by (simp add: fullStructuralAnalysis_def flow_hierarchy_no_edges split: sum.splits)
qed

lemma dead_end_agent_no_report:
  "induced_graph dead_end_agent = Inr [[0]]
   \<and> fullStructuralAnalysis (\<lambda>G. [0]) None (\<lambda>a. Inl NameError) dead_end_agent True
       = Inl ZeroDivisionError"
  by code_simp

lemma betweenness_zero_denominator:
  assumes "G \<noteq> []" "number_of_densely_connected_nodes G False = Inr 0"
  shows "average_betweenness_centrality bc g_agent G True =
           Inr (if sum_list (bc G) = 0 then NaN else if 0 < sum_list (bc G) then PosInf else NegInf)"
  by (simp add: average_betweenness_centrality_def adjacency_matrix_def assms np_true_divide_def)

lemma betweenness_no_nodes:
  "average_betweenness_centrality bc g_agent [] True = Inl NetworkXError"
  by (simp add: average_betweenness_centrality_def adjacency_matrix_def)

lemma betweenness_no_hidden_ixs:
  "hidden_ixs ag = [] \<Longrightarrow>
   average_betweenness_centrality bc (Some ag) G False = Inl ZeroDivisionError"
  by (simp add: average_betweenness_centrality_def py_true_divide_def)

text \<open>
  A report that carries \<open>nan\<close>: the graph of \<open>direct_agent\<close> has one edge and no densely
  connected node, and the centralities of its two nodes are 0.
\<close>

lemma direct_agent_report:
  "fullStructuralAnalysis (\<lambda>G. map (\<lambda>_. 0) G) g_agent get_graph direct_agent True =
     Inr \<lparr>df_columns =
            [''cN'', ''cS'', ''cH'', ''cM'', ''s_m'', ''s_h'', ''h_h'', ''h_m'',
             ''len_LSCC'', ''len_LWCC'', ''flow_hierarchy'',
             ''av_betweenness_centrality'', ''av_degree_centrality''],
          df_index = [1],
          df_rows =
            [[IntV 2, IntV 1, IntV 0, IntV 1, IntV 1, IntV 0, IntV 0, IntV 0, IntV 1, IntV 2,
              FloatV (Fin 1), FloatV NaN, FloatV (Fin 1)]]\<rparr>"
  by code_simp

lemma loop_nodes_by_type:
  "number_of_connected_nodes_by_type loop_agent =
     Inr (DataFrame [(''cN'', IntV 4), (''cS'', IntV 1), (''cH'', IntV 2), (''cM'', IntV 1)] [1])"
  by code_simp

lemma loop_connections_by_type:
  "number_of_connections_by_type loop_agent True =
     Inr (DataFrame [(''s_m'', IntV 1), (''s_h'', IntV 0), (''h_h'', IntV 0), (''h_m'', IntV 0)] [1])"
  by code_simp

lemma loop_connected_nodes: "connected_nodes loop_agent = Inr [0, 0, 1, 1]"
  by code_simp

lemma loop_induced_graph:
  "induced_graph loop_agent = Inr [[0, 0, 1, 1], [0, 0, 1, 1], [1, 1, 0, 0], [1, 1, 0, 0]]"
  by code_simp

lemma loop_len_LSCC: "len_LSCC [[0, 0, 1, 1], [0, 0, 1, 1], [1, 1, 0, 0], [1, 1, 0, 0]] = Inr 4"
  by code_simp

lemma loop_len_LWCC: "len_LWCC [[0, 0, 1, 1], [0, 0, 1, 1], [1, 1, 0, 0], [1, 1, 0, 0]] = Inr 4"
  by code_simp

lemma loop_flow_hierarchy:
  "flow_hierarchy [[0, 0, 1, 1], [0, 0, 1, 1], [1, 1, 0, 0], [1, 1, 0, 0]] = Inr (Fin 0)"
  by code_simp

lemma loop_degree:
  "average_degree_centrality [[0, 0, 1, 1], [0, 0, 1, 1], [1, 1, 0, 0], [1, 1, 0, 0]]
     = Inr (Fin (4 / 3))"
  by code_simp

lemma loop_adjacency:
  "adjacency_matrix [[0, 0, 1, 1], [0, 0, 1, 1], [1, 1, 0, 0], [1, 1, 0, 0]]
     = Inr [[0, 0, 1, 1], [0, 0, 1, 1], [1, 1, 0, 0], [1, 1, 0, 0]]"
  by code_simp

lemma loop_dense:
  "number_of_densely_connected_nodes [[0, 0, 1, 1], [0, 0, 1, 1], [1, 1, 0, 0], [1, 1, 0, 0]] False
     = Inr 4"
  by code_simp

lemma loop_betweenness:
  "average_betweenness_centrality bc g_agent
       [[0, 0, 1, 1], [0, 0, 1, 1], [1, 1, 0, 0], [1, 1, 0, 0]] True =
     Inr (Fin (sum_list (bc [[0, 0, 1, 1], [0, 0, 1, 1], [1, 1, 0, 0], [1, 1, 0, 0]]) / 4))"
  by (simp add: average_betweenness_centrality_def loop_adjacency loop_dense np_true_divide_def)

lemma loop_pair_adjacency: "adjacency_matrix [[0, 1], [1, 0]] = Inr [[0, 1], [1, 0]]"
  by code_simp

lemma loop_pair_dense: "number_of_densely_connected_nodes [[0, 1], [1, 0]] False = Inr 2"
  by code_simp

lemma loop_pair_betweenness:
  "average_betweenness_centrality bc g_agent [[0, 1], [1, 0]] True =
     Inr (Fin (sum_list (bc [[0, 1], [1, 0]]) / 2))"
  by (simp add: average_betweenness_centrality_def loop_pair_adjacency loop_pair_dense
      np_true_divide_def)

lemma loop_join:
  "df_join
     (DataFrame [(''cN'', IntV 4), (''cS'', IntV 1), (''cH'', IntV 2), (''cM'', IntV 1)] [1])
     (DataFrame [(''s_m'', IntV 1), (''s_h'', IntV 0), (''h_h'', IntV 0), (''h_m'', IntV 0)] [1]) =
   Inr (DataFrame
          [(''cN'', IntV 4), (''cS'', IntV 1), (''cH'', IntV 2), (''cM'', IntV 1),
           (''s_m'', IntV 1), (''s_h'', IntV 0), (''h_h'', IntV 0), (''h_m'', IntV 0)] [1])"
  by code_simp

lemma loop_report_join:
  "fullStructuralAnalysis bc g_agent get_graph loop_agent True =
     df_join
       (DataFrame
          [(''cN'', IntV 4), (''cS'', IntV 1), (''cH'', IntV 2), (''cM'', IntV 1),
           (''s_m'', IntV 1), (''s_h'', IntV 0), (''h_h'', IntV 0), (''h_m'', IntV 0)] [1])
       (DataFrame
          [(''len_LSCC'', IntV (int 4)),
           (''len_LWCC'', IntV (int 4)),
           (''flow_hierarchy'', FloatV (Fin 0)),
           (''av_betweenness_centrality'',
              FloatV (Fin (sum_list (bc [[0, 0, 1, 1], [0, 0, 1, 1], [1, 1, 0, 0], [1, 1, 0, 0]]) / 4))),
           (''av_degree_centrality'', FloatV (Fin (4 / 3)))] [1])"
  by (simp only: fullStructuralAnalysis_def loop_nodes_by_type loop_connections_by_type
      loop_induced_graph loop_len_LSCC loop_len_LWCC
      loop_flow_hierarchy loop_betweenness loop_degree loop_join sum.case if_True)

text \<open>
  C6. The claim is that \<^verbatim>\<open>average_betweenness_centrality\<close> gives an error or \<open>nan\<close> whenever
  no hidden node qualifies for its denominator. The agent whose sensor 0 and motor 1 are
  wired in both directions has no hidden node at all. For the graph of its matrix the
  function divides by 2 and returns a finite number (0.0 when the centralities are 0, as
  networkx's are on two nodes), and \<^verbatim>\<open>fullStructuralAnalysis\<close> returns a report whose
  \<^verbatim>\<open>av_betweenness_centrality\<close> is the finite quotient by 4 (sensor and motor are each listed
  twice by \<^verbatim>\<open>connected_nodes\<close>, so the graph has four nodes): the denominator counts every
  node of the graph that has an incoming and an outgoing edge, hidden or not. This holds
  whatever the betweenness centralities are.
\<close>

theorem betweenness_denominator_counts_nodes_that_are_not_hidden:
  "hidden_ixs loop_agent = []
   \<and> average_betweenness_centrality bc g_agent [[0, 1], [1, 0]] True =
       Inr (Fin (sum_list (bc [[0, 1], [1, 0]]) / 2))
   \<and> average_betweenness_centrality (\<lambda>G. map (\<lambda>_. 0) G) g_agent [[0, 1], [1, 0]] True =
       Inr (Fin 0)
   \<and> fullStructuralAnalysis bc g_agent get_graph loop_agent True =
       Inr \<lparr>df_columns =
              [''cN'', ''cS'', ''cH'', ''cM'', ''s_m'', ''s_h'', ''h_h'', ''h_m'',
               ''len_LSCC'', ''len_LWCC'', ''flow_hierarchy'',
               ''av_betweenness_centrality'', ''av_degree_centrality''],
            df_index = [1],
            df_rows =
              [[IntV 4, IntV 1, IntV 2, IntV 1, IntV 1, IntV 0, IntV 0, IntV 0, IntV 4, IntV 4,
                FloatV (Fin 0),
                FloatV (Fin (sum_list (bc [[0, 0, 1, 1], [0, 0, 1, 1], [1, 1, 0, 0], [1, 1, 0, 0]]) / 4)),
                FloatV (Fin (4 / 3))]]\<rparr>"
proof -
  have "hidden_ixs loop_agent = []"
    by (simp add: loop_agent_def)
  moreover have "average_betweenness_centrality (\<lambda>G. map (\<lambda>_. 0) G) g_agent [[0, 1], [1, 0]] True =
       Inr (Fin 0)"
    by (simp add: loop_pair_betweenness)
  ultimately show ?thesis
    by (simp add: loop_pair_betweenness loop_report_join df_join_def DataFrame_def)
qed

subsection \<open>Adding an edge\<close>

lemma set_connected_list:
  "set (connected_list m1 m2 S M) =
     {s \<in> set S. 0 < rsum m1 s} \<union> {t \<in> set M. 0 < csum m1 t}
     \<union> {k. k < length m1 \<and> dense m2 k}"
  by (auto simp: connected_list_def)

lemma mat_le_trans:
  assumes "mat_le a b" "mat_le b c"
  shows "mat_le a c"
proof -
  note l = mat_le_lengths[OF assms(1)]
  have sh: "map length a = map length c"
    using assms by (simp add: mat_le_def)
  have "a ! x ! y \<le> c ! x ! y" if "x < length a" "y < length (a ! x)" for x y
  proof -
    have "x < length b" "y < length (b ! x)"
      using that l by simp_all
    then have "b ! x ! y \<le> c ! x ! y"
      using assms(2) by (simp add: mat_le_def)
    moreover have "a ! x ! y \<le> b ! x ! y"
      using assms(1) that by (simp add: mat_le_def)
    ultimately show ?thesis
      by simp
  qed
  with sh show ?thesis
    by (simp add: mat_le_def)
qed

lemma kill_le:
  assumes "nonneg m" "kill_self_loops m = Inr m1"
  shows "mat_le m1 m"
proof -
  have sh: "map length m1 = map length m"
    by (rule kill_self_loops_shape[OF assms(2)])
  have lm: "length m1 = length m" "\<forall>a < length m. length (m1 ! a) = length (m ! a)"
    using sh by (metis length_map, metis length_map nth_map)
  have "m1 ! a ! b \<le> m ! a ! b" if "a < length m1" "b < length (m1 ! a)" for a b
  proof -
    have a: "a < length m" and b: "b < length (m ! a)"
      using that lm by simp_all
    have "0 \<le> m ! a ! b"
      using assms(1) a b by (simp add: nonneg_nth)
    then show ?thesis
      using kill_self_loops_entry[OF assms(2) a b] by auto
  qed
  with sh show ?thesis
    by (simp add: mat_le_def)
qed

lemma nonneg_mat_le:
  assumes "nonneg m" "mat_le m n"
  shows "nonneg n"
proof -
  note l = mat_le_lengths[OF assms(2)]
  have "0 \<le> n ! a ! b" if "a < length n" "b < length (n ! a)" for a b
  proof -
    have a: "a < length m" and b: "b < length (m ! a)"
      using that l by simp_all
    have "0 \<le> m ! a ! b"
      using assms(1) a b by (simp add: nonneg_nth)
    moreover have "m ! a ! b \<le> n ! a ! b"
      using assms(2) a b by (simp add: mat_le_def)
    ultimately show ?thesis
      by simp
  qed
  then show ?thesis
    by (simp add: nonneg_nth)
qed

text \<open>
  Below a matrix whose sums fit, nothing wraps: the int64 sums of a non-negative square
  matrix are its sums, and the test on their product is the test on the product.
\<close>

lemma fit_below:
  assumes nn: "nonneg X" and le: "mat_le X Y" and sq: "square X" and fit: "sums_fit Y"
    and k: "k < length X"
  shows "rsum X k = sum_list (X ! k)"
    and "csum X k = colsum X k"
    and "dense X k = (0 < colsum X k * sum_list (X ! k))"
proof -
  have kY: "k < length Y"
    using mat_le_lengths[OF le] k by simp
  have c: "\<forall>a < length X. k < length (X ! a)"
    using squareD[OF sq] k by simp
  have r0: "0 \<le> sum_list (X ! k)"
    by (rule nonneg_rowsum[OF nn k])
  have c0: "0 \<le> colsum X k"
    by (rule nonneg_colsum[OF nn c])
  have r1: "sum_list (X ! k) \<le> sum_list (Y ! k)"
    by (rule mat_le_rowsum[OF le k])
  have c1: "colsum X k \<le> colsum Y k"
    by (rule mat_le_colsum[OF le c])
  have f: "sum_list (Y ! k) < 2 ^ 63" "colsum Y k < 2 ^ 63"
    "colsum Y k * sum_list (Y ! k) < 2 ^ 63"
    using fit kY by (simp_all add: sums_fit_def list_all_iff)
  have cY: "0 \<le> colsum Y k"
    using c0 c1 by simp
  have p1: "colsum X k * sum_list (X ! k) \<le> colsum Y k * sum_list (Y ! k)"
    by (rule mult_mono[OF c1 r1 cY r0])
  have p0: "0 \<le> colsum X k * sum_list (X ! k)"
    using c0 r0 by simp
  have pf: "colsum X k * sum_list (X ! k) < 2 ^ 63"
    using p1 f(3) by simp
  show r: "rsum X k = sum_list (X ! k)"
    unfolding rsum_def using r0 r1 f(1) by (intro wrap64_id) simp_all
  show cs: "csum X k = colsum X k"
    unfolding csum_def using c0 c1 f(2) by (intro wrap64_id) simp_all
  show "dense X k = (0 < colsum X k * sum_list (X ! k))"
    unfolding dense_def r cs using wrap64_id[OF p0 pf] by simp
qed

lemma connected_list_mono:
  assumes le1: "mat_le m1 n1" and le2: "mat_le m2 n2"
    and nn1: "nonneg m1" and nn2: "nonneg m2"
    and sq1: "square m1" and sq2: "square m2" and l2: "length m2 = length m1"
    and sqn1: "square n1" and sqn2: "square n2"
    and top1: "mat_le n1 Y" and top2: "mat_le n2 Y" and fit: "sums_fit Y"
    and S: "\<forall>s \<in> set S. s < length m1" and M: "\<forall>t \<in> set M. t < length m1"
  shows "set (connected_list m1 m2 S M) \<subseteq> set (connected_list n1 n2 S M)"
proof
  have nnn1: "nonneg n1"
    by (rule nonneg_mat_le[OF nn1 le1])
  have nnn2: "nonneg n2"
    by (rule nonneg_mat_le[OF nn2 le2])
  have b1: "mat_le m1 Y"
    by (rule mat_le_trans[OF le1 top1])
  have b2: "mat_le m2 Y"
    by (rule mat_le_trans[OF le2 top2])
  have ln1: "length n1 = length m1"
    using mat_le_lengths[OF le1] by simp
  have ln2: "length n2 = length m2"
    using mat_le_lengths[OF le2] by simp
  fix x assume "x \<in> set (connected_list m1 m2 S M)"
  then consider (s) "x \<in> set S" "0 < rsum m1 x"
    | (m) "x \<in> set M" "0 < csum m1 x"
    | (h) "x < length m1" "dense m2 x"
    by (auto simp: set_connected_list)
  then show "x \<in> set (connected_list n1 n2 S M)"
  proof cases
    case s
    have x1: "x < length m1"
      using S s(1) by simp
    have xn: "x < length n1"
      using x1 ln1 by simp
    have "0 < sum_list (m1 ! x)"
      using s(2) fit_below(1)[OF nn1 b1 sq1 fit x1] by simp
    then have "0 < sum_list (n1 ! x)"
      using mat_le_rowsum[OF le1 x1] by simp
    then have "0 < rsum n1 x"
      using fit_below(1)[OF nnn1 top1 sqn1 fit xn] by simp
    with s show ?thesis
      by (simp add: set_connected_list)
  next
    case m
    have x1: "x < length m1"
      using M m(1) by simp
    have xn: "x < length n1"
      using x1 ln1 by simp
    have c: "\<forall>a < length m1. x < length (m1 ! a)"
      using squareD[OF sq1] x1 by simp
    have "0 < colsum m1 x"
      using m(2) fit_below(2)[OF nn1 b1 sq1 fit x1] by simp
    then have "0 < colsum n1 x"
      using mat_le_colsum[OF le1 c] by simp
    then have "0 < csum n1 x"
      using fit_below(2)[OF nnn1 top1 sqn1 fit xn] by simp
    with m show ?thesis
      by (simp add: set_connected_list)
  next
    case h
    have x2: "x < length m2"
      using h(1) l2 by simp
    have xn: "x < length n2"
      using x2 ln2 by simp
    have c: "\<forall>a < length m2. x < length (m2 ! a)"
      using squareD[OF sq2] x2 by simp
    have p: "0 < colsum m2 x * sum_list (m2 ! x)"
      using h(2) fit_below(3)[OF nn2 b2 sq2 fit x2] by simp
    have "0 \<le> colsum m2 x" "0 \<le> sum_list (m2 ! x)"
      using nonneg_colsum[OF nn2 c] nonneg_rowsum[OF nn2 x2] by simp_all
    with p have "0 < colsum m2 x" "0 < sum_list (m2 ! x)"
      by (simp_all add: zero_less_mult_iff)
    then have "0 < colsum n2 x" "0 < sum_list (n2 ! x)"
      using mat_le_colsum[OF le2 c] mat_le_rowsum[OF le2 x2] by simp_all
    then have "0 < colsum n2 x * sum_list (n2 ! x)"
      by simp
    then have "dense n2 x"
      using fit_below(3)[OF nnn2 top2 sqn2 fit xn] by simp
    moreover have "x < length n1"
      using ln1 h(1) by simp
    ultimately show ?thesis
      by (simp add: set_connected_list)
  qed
qed

lemma filter_length_mono:
  "(\<And>x. x \<in> set xs \<Longrightarrow> P x \<Longrightarrow> Q x) \<Longrightarrow> length (filter P xs) \<le> length (filter Q xs)"
  by (induction xs) auto

lemma number_of_connections_product:
  "number_of_connections m A B =
     (if (\<forall>i \<in> set A. i < nrows m) \<and> (\<forall>j \<in> set B. j < ncols m)
      then Inr (length (filter (\<lambda>(i, j). 0 < m ! i ! j) (List.product A B)))
      else Inl IndexError)"
proof -
  have "concat (map (\<lambda>i. map (\<lambda>j. m ! i ! j) B) A) = map (\<lambda>(i, j). m ! i ! j) (List.product A B)"
    by (simp add: product_concat_map map_concat comp_def)
  then have "np_count (gt0 (concat (map (\<lambda>i. map (\<lambda>j. m ! i ! j) B) A))) =
             length (filter (\<lambda>(i, j). 0 < m ! i ! j) (List.product A B))"
    by (simp add: np_count_def gt0_def filter_map comp_def case_prod_unfold)
  then show ?thesis
    by (simp add: number_of_connections_def np_ix_def)
qed

lemma number_of_connections_card:
  assumes "distinct A" "distinct B" "\<forall>i \<in> set A. i < nrows m" "\<forall>j \<in> set B. j < ncols m"
  shows "number_of_connections m A B =
           Inr (card {(i, j). i \<in> set A \<and> j \<in> set B \<and> 0 < m ! i ! j})"
proof -
  have "{x. (case x of (i, j) \<Rightarrow> 0 < m ! i ! j)} \<inter> set (List.product A B) =
        {(i, j). i \<in> set A \<and> j \<in> set B \<and> 0 < m ! i ! j}"
    by auto
  then show ?thesis
    using assms distinct_length_filter[OF distinct_product[OF assms(1,2)],
        of "\<lambda>(i, j). 0 < m ! i ! j"]
    by (simp add: number_of_connections_product)
qed

lemma update_shape: "map length (m[i := (m ! i)[j := w]]) = map length m"
  by (cases "i < length m") (simp_all add: map_update list_update_same_conv list_update_beyond)

lemma update_keeps_positive:
  assumes "0 < (w::int)" "0 < m ! a ! b"
  shows "0 < m[i := (m ! i)[j := w]] ! a ! b"
proof -
  have inner: "0 < (m ! i)[j := w] ! b" if "0 < m ! i ! b"
    using that assms(1)
    by (cases "j < length (m ! i)"; cases "b = j") (auto simp: list_update_beyond)
  show ?thesis
    using assms(2) inner
    by (cases "i < length m"; cases "a = i") (auto simp: list_update_beyond)
qed

lemma number_of_connections_update:
  assumes "number_of_connections m A B = Inr c" "0 < w"
  shows "\<exists>c'. number_of_connections (m[i := (m ! i)[j := w]]) A B = Inr c' \<and> c \<le> c'"
proof -
  let ?m' = "m[i := (m ! i)[j := w]]"
  have sh: "map length ?m' = map length m"
    by (rule update_shape)
  have r: "(\<forall>i \<in> set A. i < nrows m) \<and> (\<forall>j \<in> set B. j < ncols m)"
    and c: "c = length (filter (\<lambda>(i, j). 0 < m ! i ! j) (List.product A B))"
    using assms(1) by (auto simp: number_of_connections_product split: if_splits)
  have r': "(\<forall>i \<in> set A. i < nrows ?m') \<and> (\<forall>j \<in> set B. j < ncols ?m')"
    using r same_shape_nrows[OF sh] same_shape_ncols[OF sh] by simp
  have "c \<le> length (filter (\<lambda>(i, j). 0 < ?m' ! i ! j) (List.product A B))"
    unfolding c by (rule filter_length_mono) (auto intro: update_keeps_positive[OF assms(2)])
  then show ?thesis
    using r' by (simp add: number_of_connections_product)
qed


lemma number_of_connections_grow:
  assumes c: "number_of_connections m A B = Inr c"
    and d: "distinct A" "distinct B" "distinct A'" "distinct B'"
    and sub: "set A \<subseteq> set A'" "set B \<subseteq> set B'"
    and r': "\<forall>i \<in> set A'. i < nrows m'" "\<forall>j \<in> set B'. j < ncols m'"
    and pos: "\<And>i j. 0 < m ! i ! j \<Longrightarrow> 0 < m' ! i ! j"
  shows "\<exists>c'. number_of_connections m' A' B' = Inr c' \<and> c \<le> c'"
proof -
  have r: "\<forall>i \<in> set A. i < nrows m" "\<forall>j \<in> set B. j < ncols m"
    using c by (auto simp: number_of_connections_product split: if_splits)
  have c1: "c = card {(i, j). i \<in> set A \<and> j \<in> set B \<and> 0 < m ! i ! j}"
    using c number_of_connections_card[OF d(1,2) r] by simp
  have fin: "finite {(i, j). i \<in> set A' \<and> j \<in> set B' \<and> 0 < m' ! i ! j}"
    by (rule finite_subset[of _ "set A' \<times> set B'"]) auto
  have "{(i, j). i \<in> set A \<and> j \<in> set B \<and> 0 < m ! i ! j}
        \<subseteq> {(i, j). i \<in> set A' \<and> j \<in> set B' \<and> 0 < m' ! i ! j}"
    using sub pos by auto
  then have "c \<le> card {(i, j). i \<in> set A' \<and> j \<in> set B' \<and> 0 < m' ! i ! j}"
    unfolding c1 by (rule card_mono[OF fin])
  then show ?thesis
    using number_of_connections_card[OF d(3,4) r'] by simp
qed

lemma set_intersection_props:
  "distinct (set_intersection ind xs)"
  "set (set_intersection ind xs) = set ind \<inter> set xs"
  by (auto simp: set_intersection_def)

lemma connected_list_bound:
  assumes "\<forall>s \<in> set S. s < length m1" "\<forall>t \<in> set M. t < length m1"
  shows "\<forall>x \<in> set (connected_list m1 m2 S M). x < length m1"
  using assms by (auto simp: set_connected_list)

lemma by_type_InrD:
  assumes "number_of_connections_by_type a co = Inr df"
  shows "\<exists>ind s_m s_h h_h h_m.
           (if co then connected_nodes a else Inr [0..<n_nodes a]) = Inr ind
         \<and> number_of_connections (cm a) (set_intersection ind (sensor_ixs a))
               (set_intersection ind (motor_ixs a)) = Inr s_m
         \<and> number_of_connections (cm a) (set_intersection ind (sensor_ixs a))
               (set_intersection ind (hidden_ixs a)) = Inr s_h
         \<and> number_of_connections (cm a) (set_intersection ind (hidden_ixs a))
               (set_intersection ind (hidden_ixs a)) = Inr h_h
         \<and> number_of_connections (cm a) (set_intersection ind (hidden_ixs a))
               (set_intersection ind (motor_ixs a)) = Inr h_m
         \<and> df = DataFrame [(''s_m'', IntV (int s_m)), (''s_h'', IntV (int s_h)),
                            (''h_h'', IntV (int h_h)), (''h_m'', IntV (int h_m))] [1]"
  using assms unfolding number_of_connections_by_type_def Let_def
  by (cases co) (auto split: sum.splits)

lemma by_type_InrI:
  assumes "(if co then connected_nodes a else Inr [0..<n_nodes a]) = Inr ind"
    "number_of_connections (cm a) (set_intersection ind (sensor_ixs a))
               (set_intersection ind (motor_ixs a)) = Inr s_m"
    "number_of_connections (cm a) (set_intersection ind (sensor_ixs a))
               (set_intersection ind (hidden_ixs a)) = Inr s_h"
    "number_of_connections (cm a) (set_intersection ind (hidden_ixs a))
               (set_intersection ind (hidden_ixs a)) = Inr h_h"
    "number_of_connections (cm a) (set_intersection ind (hidden_ixs a))
               (set_intersection ind (motor_ixs a)) = Inr h_m"
  shows "number_of_connections_by_type a co =
           Inr (DataFrame [(''s_m'', IntV (int s_m)), (''s_h'', IntV (int s_h)),
                            (''h_h'', IntV (int h_h)), (''h_m'', IntV (int h_m))] [1])"
  using assms unfolding number_of_connections_by_type_def Let_def
  by simp


lemma pair_mono:
  assumes c: "number_of_connections m (set_intersection ind X) (set_intersection ind Y) = Inr c"
    and sub: "set ind \<subseteq> set ind'"
    and rng: "set ind' = set ind \<or> (\<forall>x \<in> set ind'. x < nrows m' \<and> x < ncols m')"
    and sh: "map length m' = map length m"
    and pos: "\<And>i j. 0 < m ! i ! j \<Longrightarrow> 0 < m' ! i ! j"
  shows "\<exists>c'. number_of_connections m' (set_intersection ind' X) (set_intersection ind' Y) = Inr c'
           \<and> c \<le> c'"
proof (rule number_of_connections_grow[OF c])
  show "distinct (set_intersection ind X)" "distinct (set_intersection ind Y)"
    "distinct (set_intersection ind' X)" "distinct (set_intersection ind' Y)"
    by (simp_all add: set_intersection_props)
  show "set (set_intersection ind X) \<subseteq> set (set_intersection ind' X)"
    "set (set_intersection ind Y) \<subseteq> set (set_intersection ind' Y)"
    using sub by (auto simp: set_intersection_props)
  have r: "\<forall>i \<in> set (set_intersection ind X). i < nrows m"
    "\<forall>j \<in> set (set_intersection ind Y). j < ncols m"
    using c by (auto simp: number_of_connections_product split: if_splits)
  show "\<forall>i \<in> set (set_intersection ind' X). i < nrows m'"
    using rng r(1) same_shape_nrows[OF sh] by (auto simp: set_intersection_props)
  show "\<forall>j \<in> set (set_intersection ind' Y). j < ncols m'"
    using rng r(2) same_shape_ncols[OF sh] by (auto simp: set_intersection_props)
  show "0 < m ! i ! j \<Longrightarrow> 0 < m' ! i ! j" for i j
    by (rule pos)
qed

lemma connected_nodes_grow:
  assumes sq: "square (cm a)" and nn: "nonneg (cm a)"
    and z: "cm a ! i ! j \<le> w"
    and fit: "sums_fit ((cm a)[i := (cm a ! i)[j := w]])"
    and xs: "connected_nodes a = Inr xs"
  shows "\<exists>xs'. connected_nodes (a\<lparr>cm := (cm a)[i := (cm a ! i)[j := w]]\<rparr>) = Inr xs'
           \<and> set xs \<subseteq> set xs' \<and> (\<forall>x \<in> set xs'. x < length (cm a))"
proof -
  let ?m' = "(cm a)[i := (cm a ! i)[j := w]]"
  let ?a' = "a\<lparr>cm := ?m'\<rparr>"
  from connected_nodes_squareD[OF sq xs] obtain m1 m2 where
    k1: "kill_self_loops (cm a) = Inr m1" and k2: "kill_self_loops m1 = Inr m2" and
    xs_eq: "xs = connected_list m1 m2 (sensor_ixs a) (motor_ixs a)" and
    ne: "sensor_ixs a \<noteq> []" "motor_ixs a \<noteq> []" and
    rs: "\<forall>s \<in> set (sensor_ixs a). s < length (cm a)" and
    rm: "\<forall>t \<in> set (motor_ixs a). t < length (cm a)"
    by blast
  have sq': "square ?m'"
    by (rule square_same_shape[OF update_shape sq])
  have len': "length ?m' = length (cm a)"
    by simp
  obtain n1 where k1': "kill_self_loops ?m' = Inr n1"
    using square_kill_self_loops[OF sq'] by blast
  have sqn1: "square n1" and ln1: "length n1 = length (cm a)"
    using kill_self_loops_square[OF sq' k1'] by simp_all
  obtain n2 where k2': "kill_self_loops n1 = Inr n2"
    using square_kill_self_loops[OF sqn1] by blast
  have sqm1: "square m1" and lm1: "length m1 = length (cm a)"
    using kill_self_loops_square[OF sq k1] by simp_all
  have sqm2: "square m2" and lm2: "length m2 = length m1"
    using kill_self_loops_square[OF sqm1 k2] by simp_all
  have le0: "mat_le (cm a) ?m'"
    by (rule mat_le_update[OF z])
  have le1: "mat_le m1 n1"
    by (rule mat_le_kill[OF le0 k1 k1'])
  have le2: "mat_le m2 n2"
    by (rule mat_le_kill[OF le1 k2 k2'])
  have nn1: "nonneg m1"
    by (rule nonneg_kill[OF nn k1])
  have nn2: "nonneg m2"
    by (rule nonneg_kill[OF nn1 k2])
  have nn': "nonneg ?m'"
    by (rule nonneg_mat_le[OF nn le0])
  have nnn1: "nonneg n1"
    by (rule nonneg_kill[OF nn' k1'])
  have sqn2: "square n2"
    using kill_self_loops_square[OF sqn1 k2'] by simp
  have top1: "mat_le n1 ?m'"
    by (rule kill_le[OF nn' k1'])
  have top2: "mat_le n2 ?m'"
    by (rule mat_le_trans[OF kill_le[OF nnn1 k2'] top1])
  have c': "connected_nodes ?a' = Inr (connected_list n1 n2 (sensor_ixs a) (motor_ixs a))"
    using connected_nodes_squareI[of ?a' n1 n2] sq' k1' k2' ne rs rm by simp
  have sub: "set xs \<subseteq> set (connected_list n1 n2 (sensor_ixs a) (motor_ixs a))"
    unfolding xs_eq
    using connected_list_mono[OF le1 le2 nn1 nn2 sqm1 sqm2 lm2 sqn1 sqn2 top1 top2 fit]
      rs rm lm1 by simp
  have bound: "\<forall>x \<in> set (connected_list n1 n2 (sensor_ixs a) (motor_ixs a)). x < length (cm a)"
    using connected_list_bound[of "sensor_ixs a" n1 "motor_ixs a" n2] rs rm ln1 by simp
  show ?thesis
    using c' sub bound by simp
qed


lemma by_type_mono:
  assumes wf: "co \<Longrightarrow> square (cm a) \<and> nonneg (cm a)
                   \<and> sums_fit ((cm a)[i := (cm a ! i)[j := w]])"
    and z: "cm a ! i ! j = 0" and w: "0 < w"
    and df: "number_of_connections_by_type a co = Inr df"
  shows "\<exists>s_m s_h h_h h_m s_m' s_h' h_h' h_m'.
           df = DataFrame [(''s_m'', IntV (int s_m)), (''s_h'', IntV (int s_h)),
                           (''h_h'', IntV (int h_h)), (''h_m'', IntV (int h_m))] [1]
         \<and> number_of_connections_by_type (a\<lparr>cm := (cm a)[i := (cm a ! i)[j := w]]\<rparr>) co =
             Inr (DataFrame [(''s_m'', IntV (int s_m')), (''s_h'', IntV (int s_h')),
                             (''h_h'', IntV (int h_h')), (''h_m'', IntV (int h_m'))] [1])
         \<and> s_m \<le> s_m' \<and> s_h \<le> s_h' \<and> h_h \<le> h_h' \<and> h_m \<le> h_m'"
proof -
  let ?m' = "(cm a)[i := (cm a ! i)[j := w]]"
  let ?a' = "a\<lparr>cm := ?m'\<rparr>"
  from by_type_InrD[OF df] obtain ind s_m s_h h_h h_m where
    ind: "(if co then connected_nodes a else Inr [0..<n_nodes a]) = Inr ind" and
    c1: "number_of_connections (cm a) (set_intersection ind (sensor_ixs a))
               (set_intersection ind (motor_ixs a)) = Inr s_m" and
    c2: "number_of_connections (cm a) (set_intersection ind (sensor_ixs a))
               (set_intersection ind (hidden_ixs a)) = Inr s_h" and
    c3: "number_of_connections (cm a) (set_intersection ind (hidden_ixs a))
               (set_intersection ind (hidden_ixs a)) = Inr h_h" and
    c4: "number_of_connections (cm a) (set_intersection ind (hidden_ixs a))
               (set_intersection ind (motor_ixs a)) = Inr h_m" and
    dfeq: "df = DataFrame [(''s_m'', IntV (int s_m)), (''s_h'', IntV (int s_h)),
                            (''h_h'', IntV (int h_h)), (''h_m'', IntV (int h_m))] [1]"
    by blast
  have sh: "map length ?m' = map length (cm a)"
    by (rule update_shape)
  have pos: "0 < cm a ! x ! y \<Longrightarrow> 0 < ?m' ! x ! y" for x y
    by (rule update_keeps_positive[OF w])
  have "\<exists>ind'. (if co then connected_nodes ?a' else Inr [0..<n_nodes ?a']) = Inr ind'
          \<and> set ind \<subseteq> set ind'
          \<and> (set ind' = set ind \<or> (\<forall>x \<in> set ind'. x < nrows ?m' \<and> x < ncols ?m'))"
  proof (cases co)
    case True
    then have xs: "connected_nodes a = Inr ind"
      using ind by simp
    have sq: "square (cm a)" and nn: "nonneg (cm a)"
      and fit: "sums_fit ((cm a)[i := (cm a ! i)[j := w]])"
      using wf True by simp_all
    have "cm a ! i ! j \<le> w"
      using z w by simp
    from connected_nodes_grow[OF sq nn this fit xs] obtain xs' where
      "connected_nodes ?a' = Inr xs'" "set ind \<subseteq> set xs'" "\<forall>x \<in> set xs'. x < length (cm a)"
      by blast
    moreover have "ncols ?m' = length (cm a)" "nrows ?m' = length (cm a)"
      using square_ncols[OF square_same_shape[OF sh sq]] by (simp_all add: nrows_def)
    ultimately show ?thesis
      using True by auto
  next
    case False
    then show ?thesis
      using ind by auto
  qed
  then obtain ind' where
    ind': "(if co then connected_nodes ?a' else Inr [0..<n_nodes ?a']) = Inr ind'" and
    sub: "set ind \<subseteq> set ind'" and
    rng: "set ind' = set ind \<or> (\<forall>x \<in> set ind'. x < nrows ?m' \<and> x < ncols ?m')"
    by blast
  from pair_mono[OF c1 sub rng sh pos] obtain s_m' where
    d1: "number_of_connections ?m' (set_intersection ind' (sensor_ixs a))
               (set_intersection ind' (motor_ixs a)) = Inr s_m'" and l1: "s_m \<le> s_m'"
    by blast
  from pair_mono[OF c2 sub rng sh pos] obtain s_h' where
    d2: "number_of_connections ?m' (set_intersection ind' (sensor_ixs a))
               (set_intersection ind' (hidden_ixs a)) = Inr s_h'" and l2: "s_h \<le> s_h'"
    by blast
  from pair_mono[OF c3 sub rng sh pos] obtain h_h' where
    d3: "number_of_connections ?m' (set_intersection ind' (hidden_ixs a))
               (set_intersection ind' (hidden_ixs a)) = Inr h_h'" and l3: "h_h \<le> h_h'"
    by blast
  from pair_mono[OF c4 sub rng sh pos] obtain h_m' where
    d4: "number_of_connections ?m' (set_intersection ind' (hidden_ixs a))
               (set_intersection ind' (motor_ixs a)) = Inr h_m'" and l4: "h_m \<le> h_m'"
    by blast
  have "number_of_connections_by_type ?a' co =
          Inr (DataFrame [(''s_m'', IntV (int s_m')), (''s_h'', IntV (int s_h')),
                          (''h_h'', IntV (int h_h')), (''h_m'', IntV (int h_m'))] [1])"
    using by_type_InrI[of co ?a' ind' s_m' s_h' h_h' h_m'] ind' d1 d2 d3 d4 by simp
  with dfeq l1 l2 l3 l4 show ?thesis
    by blast
qed

lemma df_value_connections:
  "df_value (DataFrame [(''s_m'', IntV s_m), (''s_h'', IntV s_h),
                        (''h_h'', IntV h_h), (''h_m'', IntV h_m)] [1]) c =
     (if c = ''s_m'' then Some (IntV s_m) else if c = ''s_h'' then Some (IntV s_h)
      else if c = ''h_h'' then Some (IntV h_h) else if c = ''h_m'' then Some (IntV h_m)
      else None)"
  by (simp add: df_value_def DataFrame_def)


text \<open>
  C8. Let \<open>M[i, j] = 0\<close> be replaced by a weight \<open>w > 0\<close> that the array can hold. Then
  \<^verbatim>\<open>number_of_connections(M, A, B)\<close> does not decrease, for any index lists \<open>A\<close> and \<open>B\<close> (so
  also for those that hold \<open>i\<close> and \<open>j\<close>), and none of the four counts of
  \<^verbatim>\<open>number_of_connections_by_type\<close> decreases: with \<^verbatim>\<open>connected_only = False\<close> for every
  agent, and with \<^verbatim>\<open>connected_only = True\<close> (the index sets filtered to the connected
  nodes) for every agent whose matrix is square with non-negative weights, provided that
  in the new matrix every row sum, every column sum and, for every node, the product of
  the two stays below \<open>2^63\<close>, so that no int64 sum or product wraps. A call that returned
  before the change still returns after it.
\<close>

theorem adding_an_edge_without_overflow:
  assumes "cm a ! i ! j = 0" and "0 < w"
    and "setitem (cm a) i j w = Inr m'"
  shows "(\<forall>A B c. number_of_connections (cm a) A B = Inr c \<longrightarrow>
            (\<exists>c'. number_of_connections m' A B = Inr c' \<and> c \<le> c'))
       \<and> (\<forall>connected_only df.
            (connected_only \<longrightarrow> square (cm a) \<and> nonneg (cm a) \<and> sums_fit m') \<longrightarrow>
            number_of_connections_by_type a connected_only = Inr df \<longrightarrow>
            (\<exists>df'. number_of_connections_by_type (a\<lparr>cm := m'\<rparr>) connected_only = Inr df'
               \<and> (\<forall>c \<in> {''s_m'', ''s_h'', ''h_h'', ''h_m''}.
                    \<exists>x x'. df_value df c = Some (IntV x) \<and> df_value df' c = Some (IntV x')
                           \<and> x \<le> x')))"
proof -
  have m': "m' = (cm a)[i := (cm a ! i)[j := w]]"
    using assms(3) by (auto simp: setitem_def split: if_splits)
  have "\<exists>c'. number_of_connections m' A B = Inr c' \<and> c \<le> c'"
    if "number_of_connections (cm a) A B = Inr c" for A B c
    unfolding m' by (rule number_of_connections_update[OF that assms(2)])
  moreover have "\<exists>df'. number_of_connections_by_type (a\<lparr>cm := m'\<rparr>) co = Inr df'
               \<and> (\<forall>c \<in> {''s_m'', ''s_h'', ''h_h'', ''h_m''}.
                    \<exists>x x'. df_value df c = Some (IntV x) \<and> df_value df' c = Some (IntV x')
                           \<and> x \<le> x')"
    if wf: "co \<longrightarrow> square (cm a) \<and> nonneg (cm a) \<and> sums_fit m'"
      and df: "number_of_connections_by_type a co = Inr df" for co df
  proof -
    have "co \<Longrightarrow> square (cm a) \<and> nonneg (cm a)
                 \<and> sums_fit ((cm a)[i := (cm a ! i)[j := w]])"
      using wf unfolding m' by simp
    from by_type_mono[OF this assms(1,2) df] obtain s_m s_h h_h h_m s_m' s_h' h_h' h_m'
      where "df = DataFrame [(''s_m'', IntV (int s_m)), (''s_h'', IntV (int s_h)),
                           (''h_h'', IntV (int h_h)), (''h_m'', IntV (int h_m))] [1]"
        "number_of_connections_by_type (a\<lparr>cm := m'\<rparr>) co =
             Inr (DataFrame [(''s_m'', IntV (int s_m')), (''s_h'', IntV (int s_h')),
                             (''h_h'', IntV (int h_h')), (''h_m'', IntV (int h_m'))] [1])"
        "s_m \<le> s_m'" "s_h \<le> s_h'" "h_h \<le> h_h'" "h_m \<le> h_m'"
      unfolding m' by blast
    then show ?thesis
      by (simp add: df_value_connections)
  qed
  ultimately show ?thesis
    by blast
qed

lemma chain_nonneg: "square (cm chain_agent) \<and> nonneg (cm chain_agent)"
  by code_simp

lemma chain_add_edge:
  "cm chain_agent ! 0 ! 3 = 0 \<and>
   setitem (cm chain_agent) 0 3 5 = Inr [[0, 1, 0, 5], [0, 0, 1, 0], [0, 1, 0, 1], [0, 0, 0, 0]]"
  by code_simp

lemma chain_add_edge_fits: "sums_fit [[0, 1, 0, 5], [0, 0, 1, 0], [0, 1, 0, 1], [0, 0, 0, 0]]"
  by code_simp

lemma chain_s_m: "number_of_connections (cm chain_agent) [0] [3] = Inr 0"
  by code_simp

lemma chain_add_edge_s_m:
  "number_of_connections [[0, 1, 0, 5], [0, 0, 1, 0], [0, 1, 0, 1], [0, 0, 0, 0]] [0] [3] = Inr 1"
  by code_simp

lemma chain_add_edge_by_type:
  "number_of_connections_by_type
     (chain_agent\<lparr>cm := [[0, 1, 0, 5], [0, 0, 1, 0], [0, 1, 0, 1], [0, 0, 0, 0]]\<rparr>) True =
   Inr (DataFrame [(''s_m'', IntV 1), (''s_h'', IntV 1), (''h_h'', IntV 2), (''h_m'', IntV 1)] [1])"
  by code_simp

text \<open>
  The edge 0\<rightarrow>3 of weight 5 added to the agent of the concrete scenario: every hypothesis
  holds, and s_m grows from 0 to 1 while the other three counts stay.
\<close>

theorem adding_an_edge_without_overflow_witness:
  "cm chain_agent ! 0 ! 3 = 0
   \<and> setitem (cm chain_agent) 0 3 5 = Inr [[0, 1, 0, 5], [0, 0, 1, 0], [0, 1, 0, 1], [0, 0, 0, 0]]
   \<and> square (cm chain_agent) \<and> nonneg (cm chain_agent)
   \<and> sums_fit [[0, 1, 0, 5], [0, 0, 1, 0], [0, 1, 0, 1], [0, 0, 0, 0]]
   \<and> number_of_connections (cm chain_agent) [0] [3] = Inr 0
   \<and> (\<exists>c'. number_of_connections [[0, 1, 0, 5], [0, 0, 1, 0], [0, 1, 0, 1], [0, 0, 0, 0]] [0] [3]
          = Inr c' \<and> 0 \<le> c' \<and> c' = 1)
   \<and> number_of_connections_by_type chain_agent True =
       Inr (DataFrame [(''s_m'', IntV 0), (''s_h'', IntV 1), (''h_h'', IntV 2), (''h_m'', IntV 1)] [1])
   \<and> (\<exists>df'. number_of_connections_by_type
              (chain_agent\<lparr>cm := [[0, 1, 0, 5], [0, 0, 1, 0], [0, 1, 0, 1], [0, 0, 0, 0]]\<rparr>) True
            = Inr df'
          \<and> (\<exists>x'. df_value df' ''s_m'' = Some (IntV x') \<and> 0 \<le> x' \<and> x' = 1)
          \<and> (\<exists>x'. df_value df' ''s_h'' = Some (IntV x') \<and> 1 \<le> x')
          \<and> (\<exists>x'. df_value df' ''h_h'' = Some (IntV x') \<and> 2 \<le> x')
          \<and> (\<exists>x'. df_value df' ''h_m'' = Some (IntV x') \<and> 1 \<le> x'))"
proof -
  let ?m' = "[[0, 1, 0, 5], [0, 0, 1, 0], [0, 1, 0, 1], [0, 0, 0, 0 :: int]]"
  let ?df = "DataFrame [(''s_m'', IntV 0), (''s_h'', IntV 1), (''h_h'', IntV 2), (''h_m'', IntV 1)] [1]"
  have h: "cm chain_agent ! 0 ! 3 = 0" "setitem (cm chain_agent) 0 3 5 = Inr ?m'"
    using chain_add_edge by simp_all
  have w: "(0::int) < 5"
    by simp
  note t = adding_an_edge_without_overflow[OF h(1) w h(2)]
  from t chain_s_m
  have "\<exists>c'. number_of_connections ?m' [0] [3] = Inr c' \<and> 0 \<le> c'"
    by blast
  then have 1: "\<exists>c'. number_of_connections ?m' [0] [3] = Inr c' \<and> 0 \<le> c' \<and> c' = 1"
    by (simp add: chain_add_edge_s_m)
  from t chain_nonneg chain_add_edge_fits chain_connections_by_type
  have "\<exists>df'. number_of_connections_by_type (chain_agent\<lparr>cm := ?m'\<rparr>) True = Inr df'
          \<and> (\<forall>c \<in> {''s_m'', ''s_h'', ''h_h'', ''h_m''}.
                \<exists>x x'. df_value ?df c = Some (IntV x)
                       \<and> df_value df' c = Some (IntV x') \<and> x \<le> x')"
    by blast
  then obtain df' where
    d: "number_of_connections_by_type (chain_agent\<lparr>cm := ?m'\<rparr>) True = Inr df'" and
    a: "\<forall>c \<in> {''s_m'', ''s_h'', ''h_h'', ''h_m''}.
          \<exists>x x'. df_value ?df c = Some (IntV x) \<and> df_value df' c = Some (IntV x') \<and> x \<le> x'"
    by blast
  have "df' = DataFrame [(''s_m'', IntV 1), (''s_h'', IntV 1), (''h_h'', IntV 2), (''h_m'', IntV 1)] [1]"
    using d chain_add_edge_by_type by simp
  then have v: "df_value df' ''s_m'' = Some (IntV 1)"
    by (simp add: df_value_connections)
  from a have "\<exists>x x'. df_value ?df ''s_m'' = Some (IntV x) \<and> df_value df' ''s_m'' = Some (IntV x')
                  \<and> x \<le> x'"
    by simp
  then have c1: "\<exists>x'. df_value df' ''s_m'' = Some (IntV x') \<and> 0 \<le> x' \<and> x' = 1"
    using v by (auto simp: df_value_connections)
  from a have "\<exists>x x'. df_value ?df ''s_h'' = Some (IntV x) \<and> df_value df' ''s_h'' = Some (IntV x')
                  \<and> x \<le> x'"
    by simp
  then have c2: "\<exists>x'. df_value df' ''s_h'' = Some (IntV x') \<and> 1 \<le> x'"
    by (auto simp: df_value_connections)
  from a have "\<exists>x x'. df_value ?df ''h_h'' = Some (IntV x) \<and> df_value df' ''h_h'' = Some (IntV x')
                  \<and> x \<le> x'"
    by simp
  then have c3: "\<exists>x'. df_value df' ''h_h'' = Some (IntV x') \<and> 2 \<le> x'"
    by (auto simp: df_value_connections)
  from a have "\<exists>x x'. df_value ?df ''h_m'' = Some (IntV x) \<and> df_value df' ''h_m'' = Some (IntV x')
                  \<and> x \<le> x'"
    by simp
  then have c4: "\<exists>x'. df_value df' ''h_m'' = Some (IntV x') \<and> 1 \<le> x'"
    by (auto simp: df_value_connections)
  from d c1 c2 c3 c4
  have 2: "\<exists>df'. number_of_connections_by_type (chain_agent\<lparr>cm := ?m'\<rparr>) True = Inr df'
          \<and> (\<exists>x'. df_value df' ''s_m'' = Some (IntV x') \<and> 0 \<le> x' \<and> x' = 1)
          \<and> (\<exists>x'. df_value df' ''s_h'' = Some (IntV x') \<and> 1 \<le> x')
          \<and> (\<exists>x'. df_value df' ''h_h'' = Some (IntV x') \<and> 2 \<le> x')
          \<and> (\<exists>x'. df_value df' ''h_m'' = Some (IntV x') \<and> 1 \<le> x')"
    by blast
  show ?thesis
    using h chain_nonneg chain_add_edge_fits chain_s_m 1 chain_connections_by_type 2
    by blast
qed

text \<open>
  Without the bound on the sums the counts can drop. In \<open>fan_agent\<close> sensor 0 feeds hidden
  node 1 and motor 3, and motor 4 has no input. The new edge 0\<rightarrow>4 of weight \<open>2^63 - 1\<close>, the
  largest int64, brings the int64 sum of the sensor's row from 2 to \<open>2 - 2^63\<close>: the sensor
  is no longer among the connected nodes, and s_m and s_h fall from 1 to 0, although the
  matrix is square, its weights are not negative and the entry replaced was 0.
\<close>

theorem adding_an_edge_can_wrap_a_row_sum:
  "cm fan_agent ! 0 ! 4 = 0
   \<and> (0::int) < 9223372036854775807
   \<and> square (cm fan_agent) \<and> nonneg (cm fan_agent)
   \<and> setitem (cm fan_agent) 0 4 9223372036854775807 =
       Inr [[0, 1, 0, 1, 9223372036854775807], [0, 0, 0, 1, 0], [0, 0, 0, 0, 0],
            [0, 0, 0, 0, 0], [0, 0, 0, 0, 0]]
   \<and> number_of_connections_by_type fan_agent True =
       Inr (DataFrame [(''s_m'', IntV 1), (''s_h'', IntV 1), (''h_h'', IntV 0), (''h_m'', IntV 1)] [1])
   \<and> number_of_connections_by_type
       (fan_agent\<lparr>cm := [[0, 1, 0, 1, 9223372036854775807], [0, 0, 0, 1, 0], [0, 0, 0, 0, 0],
                          [0, 0, 0, 0, 0], [0, 0, 0, 0, 0]]\<rparr>) True =
       Inr (DataFrame [(''s_m'', IntV 0), (''s_h'', IntV 0), (''h_h'', IntV 0), (''h_m'', IntV 1)] [1])"
  by code_simp

text \<open>
  Non-negative weights are needed too: in \<open>signed_agent\<close> the hidden node 1 counts as
  densely connected through two negative sums, and the new edge 1\<rightarrow>2 of weight 1 brings
  its row sum to 0, so that the node and its edge to motor 4 are no longer counted.
\<close>

lemma negative_weights_break_monotonicity:
  "cm signed_agent ! 1 ! 2 = 0
   \<and> number_of_connections_by_type signed_agent True =
       Inr (DataFrame [(''s_m'', IntV 0), (''s_h'', IntV 0), (''h_h'', IntV 0), (''h_m'', IntV 1)] [1])
   \<and> number_of_connections_by_type
         (signed_agent\<lparr>cm := (cm signed_agent)[1 := (cm signed_agent ! 1)[2 := 1]]\<rparr>) True =
       Inr (DataFrame [(''s_m'', IntV 0), (''s_h'', IntV 0), (''h_h'', IntV 0), (''h_m'', IntV 0)] [1])"
  by code_simp

subsection \<open>What a call leaves in the store\<close>

lemma unchanged_refl: "unchanged h h"
  by (simp add: unchanged_def)

lemma unchanged_length: "unchanged h h' \<Longrightarrow> length h \<le> length h'"
proof -
  assume "unchanged h h'"
  then have "length (take (length h) h') = length h"
    by (simp add: unchanged_def)
  then show ?thesis
    by simp
qed

lemma unchanged_trans: "unchanged h h1 \<Longrightarrow> unchanged h1 h2 \<Longrightarrow> unchanged h h2"
proof -
  assume a: "unchanged h h1" and b: "unchanged h1 h2"
  have "take (length h) h2 = take (length h) (take (length h1) h2)"
    using unchanged_length[OF a] by (simp add: min_def)
  also have "\<dots> = h"
    using a b by (simp add: unchanged_def)
  finally show ?thesis
    by (simp add: unchanged_def)
qed

lemma unchanged_nth: "unchanged h h' \<Longrightarrow> p < length h \<Longrightarrow> h' ! p = h ! p"
  unfolding unchanged_def by (metis nth_take)

lemma new_array_unchanged: "new_array h m = (c, h1) \<Longrightarrow> unchanged h h1 \<and> c = length h \<and> h1 ! c = m \<and> length h1 = Suc (length h)"
  by (auto simp: new_array_def unchanged_def)

lemma st_kill_loop_frame:
  "st_kill_loop is c h = (r, h') \<Longrightarrow> n \<le> c \<Longrightarrow> length h' = length h \<and> take n h' = take n h"
proof (induction "is" arbitrary: h)
  case Nil
  then show ?case by simp
next
  case (Cons i "is")
  show ?case
  proof (cases "setitem (h ! c) i i 0")
    case (Inl e)
    with Cons.prems show ?thesis by simp
  next
    case (Inr m)
    with Cons.prems have "st_kill_loop is c (h[c := m]) = (r, h')"
      by simp
    from Cons.IH[OF this Cons.prems(2)] Cons.prems(2) show ?thesis
      by simp
  qed
qed

lemma st_kill_loop_result:
  "c < length h \<Longrightarrow>
   (case kill_loop is (h ! c) of
      Inl e \<Rightarrow> fst (st_kill_loop is c h) = Inl e
    | Inr m \<Rightarrow> st_kill_loop is c h = (Inr (), h[c := m]))"
proof (induction "is" arbitrary: h)
  case Nil
  then show ?case by (simp add: list_update_same_conv)
next
  case (Cons i "is")
  show ?case
  proof (cases "setitem (h ! c) i i 0")
    case (Inl e)
    then show ?thesis by simp
  next
    case (Inr m)
    have "c < length (h[c := m])"
      using Cons.prems by simp
    from Cons.IH[OF this] Inr Cons.prems show ?thesis
      by (simp split: sum.splits)
  qed
qed


lemma st_copy_without_loops_spec:
  assumes "st_copy_without_loops h p b = (r, h')"
  shows "unchanged h h' \<and> length h' = Suc (length h)
         \<and> (case copy_without_loops (h ! p) b of
               Inl e \<Rightarrow> r = Inl e
             | Inr m \<Rightarrow> r = Inr (length h) \<and> h' ! length h = m)"
proof (cases b)
  case True
  with assms show ?thesis
    by (auto simp: st_copy_without_loops_def copy_copy_def new_array_def copy_without_loops_def
        unchanged_def)
next
  case False
  let ?h1 = "h @ [h ! p]"
  let ?is = "[0..<length (h ! p)]"
  obtain u h2 where k: "st_kill_loop ?is (length h) ?h1 = (u, h2)"
    by (cases "st_kill_loop ?is (length h) ?h1") auto
  have fr: "length h2 = Suc (length h)" "take (length h) h2 = h"
    using st_kill_loop_frame[OF k, of "length h"] by simp_all
  have res: "case kill_loop ?is (h ! p) of
               Inl e \<Rightarrow> u = Inl e
             | Inr m \<Rightarrow> u = Inr () \<and> h2 = ?h1[length h := m]"
    using st_kill_loop_result[of "length h" ?h1 ?is] k by (simp split: sum.splits)
  have r: "(r, h') = (case u of Inl e \<Rightarrow> (Inl e, h2) | Inr x \<Rightarrow> (Inr (length h), h2))"
    using assms False k
    by (simp add: st_copy_without_loops_def copy_copy_def new_array_def split: sum.splits)
  then have h': "h' = h2"
    by (cases u) auto
  show ?thesis
    using res r fr False
    by (cases u) (auto simp: h' unchanged_def copy_without_loops_def kill_self_loops_def
        split: sum.splits)
qed

lemma st_number_of_densely_connected_nodes_spec:
  assumes "st_number_of_densely_connected_nodes h p b = (r, h')"
  shows "unchanged h h' \<and> r = number_of_densely_connected_nodes (h ! p) b"
proof -
  obtain r1 h1 where c: "st_copy_without_loops h p b = (r1, h1)"
    by (cases "st_copy_without_loops h p b") auto
  note s = st_copy_without_loops_spec[OF c]
  show ?thesis
    using assms c s
    by (cases "copy_without_loops (h ! p) b")
       (auto simp: st_number_of_densely_connected_nodes_def number_of_densely_connected_nodes_def
        split: sum.splits)
qed

lemma st_densely_connected_nodes_spec:
  assumes "st_densely_connected_nodes h p b = (r, h')"
  shows "unchanged h h' \<and> r = densely_connected_nodes (h ! p) b"
proof -
  obtain r1 h1 where c: "st_copy_without_loops h p b = (r1, h1)"
    by (cases "st_copy_without_loops h p b") auto
  note s = st_copy_without_loops_spec[OF c]
  show ?thesis
    using assms c s
    by (cases "copy_without_loops (h ! p) b")
       (auto simp: st_densely_connected_nodes_def densely_connected_nodes_def
        split: sum.splits)
qed

lemma st_connected_nodes_spec:
  assumes "st_connected_nodes h r = (res, h')"
  shows "unchanged h h' \<and> res = connected_nodes (deref h r)"
proof -
  obtain r1 h1 where c: "st_copy_without_loops h (cm_ref r) False = (r1, h1)"
    by (cases "st_copy_without_loops h (cm_ref r) False") auto
  note s = st_copy_without_loops_spec[OF c]
  show ?thesis
  proof (cases "kill_self_loops (h ! cm_ref r)")
    case (Inl e)
    then show ?thesis
      using assms c s
      by (auto simp: st_connected_nodes_def connected_nodes_def deref_def copy_without_loops_def)
  next
    case (Inr m)
    then have r1: "r1 = Inr (length h)" and m: "h1 ! length h = m" and u1: "unchanged h h1"
      using s by (simp_all add: copy_without_loops_def)
    obtain r2 h2 where d: "st_densely_connected_nodes h1 (length h) False = (r2, h2)"
      by (cases "st_densely_connected_nodes h1 (length h) False") auto
    from st_densely_connected_nodes_spec[OF d]
    have u2: "unchanged h1 h2" and r2: "r2 = densely_connected_nodes m False"
      using m by simp_all
    have u: "unchanged h h2"
      by (rule unchanged_trans[OF u1 u2])
    show ?thesis
      using assms c r1 m d r2 u u1 Inr
      by (auto simp: st_connected_nodes_def connected_nodes_def deref_def split: sum.splits)
  qed
qed


lemma st_nodes_by_type_spec:
  assumes "st_number_of_connected_nodes_by_type h r = (res, h')" "cm_ref r < length h"
  shows "unchanged h h' \<and> res = number_of_connected_nodes_by_type (deref h r)"
proof -
  obtain r1 h1 where d: "st_number_of_densely_connected_nodes h (cm_ref r) False = (r1, h1)"
    by (cases "st_number_of_densely_connected_nodes h (cm_ref r) False") auto
  from st_number_of_densely_connected_nodes_spec[OF d]
  have u: "unchanged h h1" and r1: "r1 = number_of_densely_connected_nodes (h ! cm_ref r) False"
    by simp_all
  have same: "h1 ! cm_ref r = h ! cm_ref r"
    by (rule unchanged_nth[OF u assms(2)])
  show ?thesis
    using assms(1) d r1 u same
    by (auto simp: st_number_of_connected_nodes_by_type_def number_of_connected_nodes_by_type_def
        deref_def unchanged_refl split: sum.splits)
qed

lemma st_connections_by_type_spec:
  assumes "st_number_of_connections_by_type h r co = (res, h')" "cm_ref r < length h"
  shows "unchanged h h' \<and> res = number_of_connections_by_type (deref h r) co"
proof (cases co)
  case True
  obtain r1 h1 where c: "st_connected_nodes h r = (r1, h1)"
    by (cases "st_connected_nodes h r") auto
  from st_connected_nodes_spec[OF c]
  have u: "unchanged h h1" and r1: "r1 = connected_nodes (deref h r)"
    by simp_all
  have same: "h1 ! cm_ref r = h ! cm_ref r"
    by (rule unchanged_nth[OF u assms(2)])
  show ?thesis
    using assms(1) True c r1 u same
    by (auto simp: st_number_of_connections_by_type_def number_of_connections_by_type_def
        Let_def deref_def split: sum.splits)
next
  case False
  then show ?thesis
    using assms(1)
    by (auto simp: st_number_of_connections_by_type_def number_of_connections_by_type_def
        Let_def deref_def unchanged_refl split: sum.splits)
qed

lemma st_average_betweenness_spec:
  assumes "st_average_betweenness_centrality bc g h G co = (res, h')"
  shows "unchanged h h'
         \<and> res = average_betweenness_centrality bc (map_option (deref h) g) G co"
proof (cases co)
  case True
  obtain r1 h2 where d: "st_number_of_densely_connected_nodes (h @ [G]) (length h) False = (r1, h2)"
    by (cases "st_number_of_densely_connected_nodes (h @ [G]) (length h) False") auto
  from st_number_of_densely_connected_nodes_spec[OF d]
  have u: "unchanged (h @ [G]) h2" and r1: "r1 = number_of_densely_connected_nodes G False"
    by simp_all
  have "unchanged h (h @ [G])"
    by (simp add: unchanged_def)
  then have u': "unchanged h h2"
    using u by (rule unchanged_trans)
  show ?thesis
    using assms True d r1 u'
    by (auto simp: st_average_betweenness_centrality_def average_betweenness_centrality_def
        new_array_def adjacency_matrix_def unchanged_refl split: sum.splits if_splits)
next
  case False
  then show ?thesis
    using assms
    by (cases g)
       (auto simp: st_average_betweenness_centrality_def average_betweenness_centrality_def
        deref_def unchanged_refl)
qed


lemma st_fullStructuralAnalysis_frame:
  assumes run: "st_fullStructuralAnalysis bc g gg h r co = (res, h')"
    and p: "cm_ref r < length h"
    and ext: "co \<or> (\<forall>h0 r0. unchanged h0 (snd (gg h0 r0)))"
  shows "unchanged h h'"
proof -
  obtain r0 h1 where s0: "st_number_of_connected_nodes_by_type h r = (r0, h1)"
    by (cases "st_number_of_connected_nodes_by_type h r") auto
  have u1: "unchanged h h1"
    using st_nodes_by_type_spec[OF s0 p] by simp
  have p1: "cm_ref r < length h1"
    using unchanged_length[OF u1] p by simp
  obtain r1 h2 where s1: "st_number_of_connections_by_type h1 r co = (r1, h2)"
    by (cases "st_number_of_connections_by_type h1 r co") auto
  have u2: "unchanged h h2"
    using st_connections_by_type_spec[OF s1 p1] u1 unchanged_trans by blast
  define graph where "graph =
     (if co then
              (case st_connected_nodes h2 r of
                 (Inl e, h3) \<Rightarrow> (Inl e, h3)
               | (Inr ind, h3) \<Rightarrow>
                   (case as_index ind of
                      Inl e \<Rightarrow> (Inl e, h3)
                    | Inr ind_con \<Rightarrow>
                   (case np_ix (h3 ! cm_ref r) ind_con ind_con of
                      Inl e \<Rightarrow> (Inl e, h3)
                    | Inr cm_connected \<Rightarrow>
                        (case new_array h3 cm_connected of
                           (q, h4) \<Rightarrow> (from_numpy_matrix (h4 ! q), h4)))))
            else gg h2 r)"
  obtain rG h5 where sG: "graph = (rG, h5)"
    by (cases graph) auto
  have uG: "unchanged h2 h5"
  proof (cases co)
    case True
    obtain ri h3 where s3: "st_connected_nodes h2 r = (ri, h3)"
      by (cases "st_connected_nodes h2 r") auto
    have u3: "unchanged h2 h3"
      using st_connected_nodes_spec[OF s3] by simp
    have "unchanged h3 (h3 @ [m])" for m
      by (simp add: unchanged_def)
    then have "unchanged h2 (h3 @ [m])" for m
      using u3 unchanged_trans by blast
    then show ?thesis
      using sG True s3 u3
      by (auto simp: graph_def new_array_def split: sum.splits)
  next
    case False
    then have "unchanged h2 (snd (gg h2 r))"
      using ext by simp
    then show ?thesis
      using sG False by (simp add: graph_def)
  qed
  have u5: "unchanged h h5"
    by (rule unchanged_trans[OF u2 uG])
  have u6: "unchanged h h6" if "st_average_betweenness_centrality bc g h5 G co = (ra, h6)" for G ra h6
    using st_average_betweenness_spec[OF that] u5 unchanged_trans by blast
  have "(case r0 of
           Inl e \<Rightarrow> (Inl e, h1)
         | Inr df0 \<Rightarrow>
        (case r1 of
           Inl e \<Rightarrow> (Inl e, h2)
         | Inr conns \<Rightarrow>
        (case df_join df0 conns of
           Inl e \<Rightarrow> (Inl e, h2)
         | Inr df1 \<Rightarrow>
        (case rG of
           Inl e \<Rightarrow> (Inl e, h5)
         | Inr G \<Rightarrow>
        (case len_LSCC G of
           Inl e \<Rightarrow> (Inl e, h5)
         | Inr lscc \<Rightarrow>
        (case len_LWCC G of
           Inl e \<Rightarrow> (Inl e, h5)
         | Inr lwcc \<Rightarrow>
        (case flow_hierarchy G of
           Inl e \<Rightarrow> (Inl e, h5)
         | Inr fh \<Rightarrow>
        (case st_average_betweenness_centrality bc g h5 G co of
           (Inl e, h6) \<Rightarrow> (Inl e, h6)
         | (Inr abc, h6) \<Rightarrow>
        (case average_degree_centrality G of
           Inl e \<Rightarrow> (Inl e, h6)
         | Inr adc \<Rightarrow>
             (df_join df1
                (DataFrame
                   [(''len_LSCC'', IntV (int lscc)),
                    (''len_LWCC'', IntV (int lwcc)),
                    (''flow_hierarchy'', FloatV fh),
                    (''av_betweenness_centrality'', FloatV abc),
                    (''av_degree_centrality'', FloatV adc)] [1]), h6)))))))))) = (res, h')"
    using run unfolding st_fullStructuralAnalysis_def s0 s1 sG[unfolded graph_def] prod.case .
  then have "h' = h1 \<or> h' = h2 \<or> h' = h5
        \<or> (\<exists>G ra. st_average_betweenness_centrality bc g h5 G co = (ra, h'))"
    by (auto split: sum.splits prod.splits)
  then show ?thesis
    using u1 u2 u5 u6 by blast
qed


lemma average_betweenness_deref:
  "average_betweenness_centrality bc (map_option (deref h1) g) G co =
   average_betweenness_centrality bc (map_option (deref h2) g) G co"
  by (cases g) (simp_all add: average_betweenness_centrality_def deref_def Let_def)

lemma deref_unchanged: "unchanged h h' \<Longrightarrow> cm_ref r < length h \<Longrightarrow> deref h' r = deref h r"
  by (simp add: deref_def unchanged_nth)

lemma st_fullStructuralAnalysis_result:
  assumes run: "st_fullStructuralAnalysis bc g gg h r co = (res, h')"
    and p: "cm_ref r < length h"
    and ext: "co \<or> (\<forall>h0. unchanged h0 (snd (gg h0 r)) \<and> fst (gg h0 r) = get_graph (deref h0 r))"
  shows "res = fullStructuralAnalysis bc (map_option (deref h) g) get_graph (deref h r) co"
proof -
  obtain r0 h1 where s0: "st_number_of_connected_nodes_by_type h r = (r0, h1)"
    by (cases "st_number_of_connected_nodes_by_type h r") auto
  have u1: "unchanged h h1" and e0: "r0 = number_of_connected_nodes_by_type (deref h r)"
    using st_nodes_by_type_spec[OF s0 p] by simp_all
  have p1: "cm_ref r < length h1"
    using unchanged_length[OF u1] p by simp
  obtain r1 h2 where s1: "st_number_of_connections_by_type h1 r co = (r1, h2)"
    by (cases "st_number_of_connections_by_type h1 r co") auto
  have u12: "unchanged h1 h2" and e1: "r1 = number_of_connections_by_type (deref h r) co"
    using st_connections_by_type_spec[OF s1 p1] deref_unchanged[OF u1 p] by simp_all
  have u2: "unchanged h h2"
    by (rule unchanged_trans[OF u1 u12])
  have p2: "cm_ref r < length h2"
    using unchanged_length[OF u2] p by simp
  define graph where "graph =
     (if co then
              (case st_connected_nodes h2 r of
                 (Inl e, h3) \<Rightarrow> (Inl e, h3)
               | (Inr ind, h3) \<Rightarrow>
                   (case as_index ind of
                      Inl e \<Rightarrow> (Inl e, h3)
                    | Inr ind_con \<Rightarrow>
                   (case np_ix (h3 ! cm_ref r) ind_con ind_con of
                      Inl e \<Rightarrow> (Inl e, h3)
                    | Inr cm_connected \<Rightarrow>
                        (case new_array h3 cm_connected of
                           (q, h4) \<Rightarrow> (from_numpy_matrix (h4 ! q), h4)))))
            else gg h2 r)"
  obtain rG h5 where sG: "graph = (rG, h5)"
    by (cases graph) auto
  have eG: "rG = (if co then induced_graph (deref h r) else get_graph (deref h r))"
  proof (cases co)
    case True
    obtain ri h3 where s3: "st_connected_nodes h2 r = (ri, h3)"
      by (cases "st_connected_nodes h2 r") auto
    have u3: "unchanged h2 h3" and e3: "ri = connected_nodes (deref h r)"
      using st_connected_nodes_spec[OF s3] deref_unchanged[OF u2 p] by simp_all
    have "h3 ! cm_ref r = cm (deref h r)"
      using unchanged_nth[OF u3 p2] unchanged_nth[OF u2 p] by (simp add: deref_def)
    then show ?thesis
      using sG True s3 e3
      by (auto simp: graph_def new_array_def induced_graph_def split: sum.splits)
  next
    case False
    then have "fst (gg h2 r) = get_graph (deref h2 r)"
      using ext by simp
    then show ?thesis
      using sG False deref_unchanged[OF u2 p] by (simp add: graph_def)
  qed
  have eB: "fst (st_average_betweenness_centrality bc g h5 G co) =
            average_betweenness_centrality bc (map_option (deref h) g) G co" for G
    using st_average_betweenness_spec[of bc g h5 G co]
      average_betweenness_deref[of bc h5 g G co h]
    by (cases "st_average_betweenness_centrality bc g h5 G co") simp
  have "(case r0 of
           Inl e \<Rightarrow> (Inl e, h1)
         | Inr df0 \<Rightarrow>
        (case r1 of
           Inl e \<Rightarrow> (Inl e, h2)
         | Inr conns \<Rightarrow>
        (case df_join df0 conns of
           Inl e \<Rightarrow> (Inl e, h2)
         | Inr df1 \<Rightarrow>
        (case rG of
           Inl e \<Rightarrow> (Inl e, h5)
         | Inr G \<Rightarrow>
        (case len_LSCC G of
           Inl e \<Rightarrow> (Inl e, h5)
         | Inr lscc \<Rightarrow>
        (case len_LWCC G of
           Inl e \<Rightarrow> (Inl e, h5)
         | Inr lwcc \<Rightarrow>
        (case flow_hierarchy G of
           Inl e \<Rightarrow> (Inl e, h5)
         | Inr fh \<Rightarrow>
        (case st_average_betweenness_centrality bc g h5 G co of
           (Inl e, h6) \<Rightarrow> (Inl e, h6)
         | (Inr abc, h6) \<Rightarrow>
        (case average_degree_centrality G of
           Inl e \<Rightarrow> (Inl e, h6)
         | Inr adc \<Rightarrow>
             (df_join df1
                (DataFrame
                   [(''len_LSCC'', IntV (int lscc)),
                    (''len_LWCC'', IntV (int lwcc)),
                    (''flow_hierarchy'', FloatV fh),
                    (''av_betweenness_centrality'', FloatV abc),
                    (''av_degree_centrality'', FloatV adc)] [1]), h6)))))))))) = (res, h')"
    using run unfolding st_fullStructuralAnalysis_def s0 s1 sG[unfolded graph_def] prod.case .
  then have "res = (case r0 of
           Inl e \<Rightarrow> Inl e
         | Inr df0 \<Rightarrow>
        (case r1 of
           Inl e \<Rightarrow> Inl e
         | Inr conns \<Rightarrow>
        (case df_join df0 conns of
           Inl e \<Rightarrow> Inl e
         | Inr df1 \<Rightarrow>
        (case rG of
           Inl e \<Rightarrow> Inl e
         | Inr G \<Rightarrow>
        (case len_LSCC G of
           Inl e \<Rightarrow> Inl e
         | Inr lscc \<Rightarrow>
        (case len_LWCC G of
           Inl e \<Rightarrow> Inl e
         | Inr lwcc \<Rightarrow>
        (case flow_hierarchy G of
           Inl e \<Rightarrow> Inl e
         | Inr fh \<Rightarrow>
        (case fst (st_average_betweenness_centrality bc g h5 G co) of
           Inl e \<Rightarrow> Inl e
         | Inr abc \<Rightarrow>
        (case average_degree_centrality G of
           Inl e \<Rightarrow> Inl e
         | Inr adc \<Rightarrow>
             df_join df1
                (DataFrame
                   [(''len_LSCC'', IntV (int lscc)),
                    (''len_LWCC'', IntV (int lwcc)),
                    (''flow_hierarchy'', FloatV fh),
                    (''av_betweenness_centrality'', FloatV abc),
                    (''av_degree_centrality'', FloatV adc)] [1]))))))))))"
    by (auto split: sum.splits prod.splits)
  then show ?thesis
    unfolding eB e0 e1 eG fullStructuralAnalysis_def .
qed


lemma snd_unchanged:
  assumes "\<And>res h'. f = (res, h') \<Longrightarrow> unchanged h h'"
  shows "unchanged h (snd f)"
  using assms by (cases f) simp

text \<open>
  The store after \<^verbatim>\<open>connected_nodes\<close> on the self-loop agent: the caller's array keeps its
  diagonal, and the two copies made during the call have theirs cleared.
\<close>

lemma self_loop_copies:
  "st_connected_nodes [cm self_loop_agent] self_loop_ref =
     (Inr [],
      [[[1, 0, 0], [0, 0, 0], [0, 0, 0]],
       [[0, 0, 0], [0, 0, 0], [0, 0, 0]],
       [[0, 0, 0], [0, 0, 0], [0, 0, 0]]])"
  by code_simp

text \<open>
  C7. No classification or counting function changes an array that existed before the
  call: \<^verbatim>\<open>number_of_densely_connected_nodes\<close>, \<^verbatim>\<open>densely_connected_nodes\<close>,
  \<^verbatim>\<open>connected_nodes\<close>, \<^verbatim>\<open>number_of_connected_nodes_by_type\<close>,
  \<^verbatim>\<open>number_of_connections_by_type\<close> and \<^verbatim>\<open>fullStructuralAnalysis\<close> leave every such array,
  and so the caller's \<^verbatim>\<open>agent.cm\<close>, entry for entry as it was, whether they return or
  raise; the diagonal is cleared in arrays allocated during the call. For
  \<^verbatim>\<open>fullStructuralAnalysis\<close> with \<^verbatim>\<open>connected_only = False\<close> this needs \<^verbatim>\<open>get_graph\<close>, which
  is not part of the file, to change no array either.
\<close>

theorem caller_matrix_is_never_modified:
  "unchanged h (snd (st_number_of_densely_connected_nodes h p allow_self_loops))
   \<and> unchanged h (snd (st_densely_connected_nodes h p allow_self_loops))
   \<and> unchanged h (snd (st_connected_nodes h r))
   \<and> (cm_ref r < length h \<longrightarrow>
        unchanged h (snd (st_number_of_connected_nodes_by_type h r))
      \<and> unchanged h (snd (st_number_of_connections_by_type h r connected_only))
      \<and> (connected_only \<or> (\<forall>h0 r0. unchanged h0 (snd (get_graph h0 r0))) \<longrightarrow>
           unchanged h (snd (st_fullStructuralAnalysis bc g_agent get_graph h r connected_only)))
      \<and> snd (st_connected_nodes h r) ! cm_ref r = h ! cm_ref r
      \<and> snd (st_densely_connected_nodes h (cm_ref r) allow_self_loops) ! cm_ref r = h ! cm_ref r
      \<and> snd (st_number_of_densely_connected_nodes h (cm_ref r) allow_self_loops) ! cm_ref r
          = h ! cm_ref r
      \<and> snd (st_number_of_connections_by_type h r connected_only) ! cm_ref r = h ! cm_ref r
      \<and> (connected_only \<or> (\<forall>h0 r0. unchanged h0 (snd (get_graph h0 r0))) \<longrightarrow>
           snd (st_fullStructuralAnalysis bc g_agent get_graph h r connected_only) ! cm_ref r
             = h ! cm_ref r))"
proof -
  have a: "unchanged h (snd (st_number_of_densely_connected_nodes h q b))" for q b
    by (rule snd_unchanged) (simp add: st_number_of_densely_connected_nodes_spec)
  have b: "unchanged h (snd (st_densely_connected_nodes h q b))" for q b
    by (rule snd_unchanged) (simp add: st_densely_connected_nodes_spec)
  have c: "unchanged h (snd (st_connected_nodes h r))"
    by (rule snd_unchanged) (simp add: st_connected_nodes_spec)
  have d: "unchanged h (snd (st_number_of_connected_nodes_by_type h r))"
    and e: "unchanged h (snd (st_number_of_connections_by_type h r connected_only))"
    if "cm_ref r < length h"
    using that
    by (auto intro!: snd_unchanged simp: st_nodes_by_type_spec st_connections_by_type_spec)
  have f: "unchanged h (snd (st_fullStructuralAnalysis bc g_agent get_graph h r connected_only))"
    if "cm_ref r < length h" "connected_only \<or> (\<forall>h0 r0. unchanged h0 (snd (get_graph h0 r0)))"
    using that by (auto intro!: snd_unchanged elim: st_fullStructuralAnalysis_frame)
  show ?thesis
    using a b c d e f by (auto simp: unchanged_nth)
qed

theorem caller_matrix_is_never_modified_witness:
  "snd (st_fullStructuralAnalysis (\<lambda>G. []) None (\<lambda>h r. (Inl NameError, h))
          [cm chain_agent] chain_ref True) ! 0 = cm chain_agent
   \<and> snd (st_connected_nodes [cm chain_agent] chain_ref) ! 0 = cm chain_agent
   \<and> snd (st_number_of_connections_by_type [cm chain_agent] chain_ref True) ! 0 = cm chain_agent"
  using caller_matrix_is_never_modified[of "[cm chain_agent]" 0 False chain_ref True
      "\<lambda>h r. (Inl NameError, h)" "\<lambda>G. []" None]
  by (simp add: chain_ref_def)

end
